theory Spec2Isabelle
  imports Complex_Main
begin

section \<open>JavaScript primitives used by index.js\<close>

text \<open>
  Strings are byte lists (the UTF-8 bytes of the JavaScript string). Numbers are
  unbounded integers. The program computes with IEEE doubles and stores them as
  JSON text, so a sum or product of the model is the number of the program
  only while its magnitude is at most \<open>2 ^ 53\<close>: beyond that the program rounds,
  and beyond the largest double it computes \<open>Infinity\<close>, which the file holds as
  \<open>null\<close>. The statements about multiplied intervals carry that bound as a
  hypothesis. A numeric field that holds \<open>NaN\<close> in memory is written to the
  database file as \<open>null\<close> by \<open>JSON.stringify\<close>; such a field is \<open>None\<close> in the
  model.

  Every request and every tick is one step from the database it reads to the
  database it writes: the interleavings of the asynchronous handlers with one
  another and with a running tick are not modelled.
\<close>

datatype error =
    TypeError                 \<comment> \<open>property access on \<open>undefined\<close>, bad response body\<close>
  | FetchRejected             \<comment> \<open>the promise of \<open>fetch\<close> rejects\<close>
  | ApiCallFailed nat         \<comment> \<open>\<open>new Error(`API call failed with status: ...`)\<close>\<close>
  | DeliveryFailed            \<comment> \<open>\<open>client.messages.create\<close> rejects\<close>

text \<open>
  The white space and line terminator characters of JavaScript: six of them are
  ASCII, U+00A0 is two bytes of UTF-8, and the others (U+1680, U+2000 to U+200A,
  U+2028, U+2029, U+202F, U+205F, U+3000, U+FEFF) are three.
\<close>

definition is_space :: "char \<Rightarrow> bool" where
  "is_space c = (c \<in> set [CHR 0x09, CHR 0x0A, CHR 0x0B, CHR 0x0C, CHR 0x0D, CHR '' ''])"

definition spaces3 :: "string list" where
  "spaces3 =
     [[CHR 0xE1, CHR 0x9A, CHR 0x80],
      [CHR 0xE2, CHR 0x80, CHR 0x80], [CHR 0xE2, CHR 0x80, CHR 0x81],
      [CHR 0xE2, CHR 0x80, CHR 0x82], [CHR 0xE2, CHR 0x80, CHR 0x83],
      [CHR 0xE2, CHR 0x80, CHR 0x84], [CHR 0xE2, CHR 0x80, CHR 0x85],
      [CHR 0xE2, CHR 0x80, CHR 0x86], [CHR 0xE2, CHR 0x80, CHR 0x87],
      [CHR 0xE2, CHR 0x80, CHR 0x88], [CHR 0xE2, CHR 0x80, CHR 0x89],
      [CHR 0xE2, CHR 0x80, CHR 0x8A],
      [CHR 0xE2, CHR 0x80, CHR 0xA8], [CHR 0xE2, CHR 0x80, CHR 0xA9],
      [CHR 0xE2, CHR 0x80, CHR 0xAF], [CHR 0xE2, CHR 0x81, CHR 0x9F],
      [CHR 0xE3, CHR 0x80, CHR 0x80], [CHR 0xEF, CHR 0xBB, CHR 0xBF]]"

text \<open>The string without its leading white space.\<close>

fun skip_space :: "string \<Rightarrow> string" where
  "skip_space (a # b # c # r) =
     (if is_space a then skip_space (b # c # r)
      else if [a, b] = [CHR 0xC2, CHR 0xA0] then skip_space (c # r)
      else if [a, b, c] \<in> set spaces3 then skip_space r
      else a # b # c # r)"
| "skip_space [a, b] =
     (if is_space a then skip_space [b]
      else if [a, b] = [CHR 0xC2, CHR 0xA0] then []
      else [a, b])"
| "skip_space [a] = (if is_space a then [] else [a])"
| "skip_space [] = []"

definition digit_val :: "char \<Rightarrow> nat option" where
  "digit_val c =
     (let n = (of_char c :: nat) in
      if 48 \<le> n \<and> n \<le> 57 then Some (n - 48)
      else if 97 \<le> n \<and> n \<le> 122 then Some (n - 87)
      else if 65 \<le> n \<and> n \<le> 90 then Some (n - 55)
      else None)"

definition is_digit :: "nat \<Rightarrow> char \<Rightarrow> bool" where
  "is_digit radix c = (case digit_val c of None \<Rightarrow> False | Some d \<Rightarrow> d < radix)"

fun digits_value :: "nat \<Rightarrow> nat \<Rightarrow> string \<Rightarrow> nat" where
  "digits_value radix acc [] = acc"
| "digits_value radix acc (c # cs) =
     digits_value radix (acc * radix + (case digit_val c of None \<Rightarrow> 0 | Some d \<Rightarrow> d)) cs"

text \<open>
  \<open>parseInt(s)\<close> with no radix argument: leading white space is skipped, then
  an optional sign, then an optional \<open>0x\<close>/\<open>0X\<close> prefix selecting radix 16, then
  the longest prefix of digits; the result is \<open>NaN\<close> (here \<open>None\<close>) when that
  prefix is empty. The value is the exact integer; the program has the nearest
  double, which is the same number up to \<open>2 ^ 53\<close>.
\<close>

definition parseInt :: "string \<Rightarrow> int option" where
  "parseInt s =
     (let s1 = skip_space s;
          neg = (s1 \<noteq> [] \<and> hd s1 = CHR ''-'');
          s2 = (if s1 \<noteq> [] \<and> (hd s1 = CHR ''+'' \<or> hd s1 = CHR ''-'') then tl s1 else s1);
          hex = (take 2 s2 = ''0x'' \<or> take 2 s2 = ''0X'');
          radix = (if hex then 16 else 10);
          s3 = (if hex then drop 2 s2 else s2);
          z = takeWhile (is_digit radix) s3
      in if z = [] then None
         else Some ((if neg then - 1 else 1) * int (digits_value radix 0 z)))"

text \<open>\<open>parseInt(params[i])\<close>: a missing element is \<open>undefined\<close>, which parses to \<open>NaN\<close>.\<close>

definition parseInt_at :: "string list \<Rightarrow> nat \<Rightarrow> int option" where
  "parseInt_at params i = (if i < length params then parseInt (params ! i) else None)"

text \<open>\<open>s.split(' ')\<close>: always at least one piece, empty pieces are kept.\<close>

fun split_sp :: "string \<Rightarrow> string list" where
  "split_sp [] = [[]]"
| "split_sp (c # cs) =
     (if c = CHR '' '' then [] # split_sp cs
      else (case split_sp cs of [] \<Rightarrow> [[c]] | p # ps \<Rightarrow> (c # p) # ps))"

text \<open>
  \<open>s.toLowerCase()\<close> on the ASCII letters; other bytes are left as they are. The
  program only compares the result with \<open>yes\<close> and \<open>no\<close>, and no character outside
  ASCII has one of their letters as its lower case. (The same function serves
  below for the route match of Express, which ignores the case of ASCII letters
  only.)
\<close>

definition lower_char :: "char \<Rightarrow> char" where
  "lower_char c =
     (let n = (of_char c :: nat) in if 65 \<le> n \<and> n \<le> 90 then char_of (n + 32) else c)"

definition toLowerCase :: "string \<Rightarrow> string" where
  "toLowerCase s = map lower_char s"

text \<open>\<open>xs[i]\<close>: \<open>undefined\<close> (here \<open>None\<close>) outside the array.\<close>

definition js_index :: "'a list \<Rightarrow> int \<Rightarrow> 'a option" where
  "js_index xs i = (if 0 \<le> i \<and> i < int (length xs) then Some (xs ! nat i) else None)"

text \<open>\<open>a % b\<close> on integers: the sign follows the dividend, \<open>NaN\<close> for \<open>b = 0\<close>.\<close>

definition js_rem :: "int \<Rightarrow> int \<Rightarrow> int option" where
  "js_rem a b = (if b = 0 then None else Some (sgn a * (\<bar>a\<bar> mod \<bar>b\<bar>)))"

text \<open>\<open>xs.join(', ')\<close>.\<close>

fun join_comma :: "string list \<Rightarrow> string" where
  "join_comma [] = []"
| "join_comma [x] = x"
| "join_comma (x # y # ys) = x @ '', '' @ join_comma (y # ys)"

text \<open>Decimal text of a number, as a template literal prints it.\<close>

fun nat_digits :: "nat \<Rightarrow> nat \<Rightarrow> string" where
  "nat_digits 0 n = []"
| "nat_digits (Suc fuel) n =
     (if n < 10 then [char_of (48 + n)]
      else nat_digits fuel (n div 10) @ [char_of (48 + n mod 10)])"

definition show_int :: "int \<Rightarrow> string" where
  "show_int i =
     (if i < 0 then CHR ''-'' # nat_digits (Suc (nat (- i))) (nat (- i))
      else nat_digits (Suc (nat i)) (nat i))"

section \<open>Subscriber records and the database\<close>

text \<open>
  One entry of \<open>db.users\<close>. \<open>endTime\<close> is \<open>None\<close> when the field is \<open>null\<close> or
  absent; \<open>nextSendTime\<close> and \<open>currentIntervalIndex\<close> are \<open>None\<close> when the file
  holds \<open>null\<close> (a computed \<open>NaN\<close>).
\<close>

record user =
  active :: bool
  sendIntervals :: "int list"
  lessonWeights :: "int list"
  messageCount :: int
  endTime :: "int option"
  nextSendTime :: "int option"
  currentIntervalIndex :: "int option"

text \<open>
  \<open>db.users\<close> is an object keyed by phone number; \<open>Object.entries\<close> lists string
  keys in insertion order, so the model is an association list in which a new key
  is appended and an existing key is updated in place. (JavaScript lists keys that
  are canonical array indices first; a phone number with its leading \<open>+\<close> is
  none. No property below depends on the order of the scan.)
\<close>

type_synonym database = "(string \<times> user) list"

definition get_user :: "database \<Rightarrow> string \<Rightarrow> user option" where
  "get_user db phoneNumber = map_of db phoneNumber"

fun set_user :: "database \<Rightarrow> string \<Rightarrow> user \<Rightarrow> database" where
  "set_user [] k v = [(k, v)]"
| "set_user (p # ps) k v = (if fst p = k then (k, v) # ps else p # set_user ps k v)"

section \<open>Command handlers\<close>

text \<open>
  Every handler takes the database it read and the value of \<open>Date.now()\<close>, and
  returns either the error it throws or the database it wrote (the one it read,
  when it writes nothing) with its reply text. \<open>handleBegin\<close> reads the clock
  twice; both reads have the same value here.
\<close>

definition handleBegin :: "database \<Rightarrow> int \<Rightarrow> string \<Rightarrow> string list \<Rightarrow> error + database \<times> string" where
  "handleBegin db now phoneNumber params =
     (let hours = (if params \<noteq> [] \<and> hd params \<noteq> [] then parseInt (hd params) else None);
          u = \<lparr> active = True,
                sendIntervals = [3600000],
                lessonWeights = replicate 9 1,
                messageCount = 0,
                endTime = (case hours of None \<Rightarrow> None
                           | Some h \<Rightarrow> if h = 0 then None else Some (now + h * 3600000)),
                nextSendTime = Some now,
                currentIntervalIndex = Some 0 \<rparr>
      in Inr (set_user db phoneNumber u,
              ''Service started! You'' @ [CHR 0x27] @ ''ll receive Hoon Academy nuggets hourly.''))"

definition handleStop :: "database \<Rightarrow> int \<Rightarrow> string \<Rightarrow> string list \<Rightarrow> error + database \<times> string" where
  "handleStop db now phoneNumber params =
     (if params \<noteq> [] \<and> (hd params = ''in'' \<or> hd params = ''for'') then
        (case parseInt_at params 1 of
           None \<Rightarrow> Inr (db, ''Please specify a valid number of hours.'')
         | Some hours \<Rightarrow>
             if hours > 0 then
               (case get_user db phoneNumber of
                  None \<Rightarrow> Inl TypeError
                | Some u \<Rightarrow>
                    Inr (set_user db phoneNumber (u\<lparr>endTime := Some (now + hours * 3600000)\<rparr>),
                         ''Service will stop in '' @ show_int hours @ '' hours.''))
             else Inr (db, ''Please specify a valid number of hours.''))
      else
        (case get_user db phoneNumber of
           None \<Rightarrow> Inl TypeError
         | Some u \<Rightarrow>
             Inr (set_user db phoneNumber (u\<lparr>active := False\<rparr>),
                  ''Service stopped. Text :begin to start again.'')))"

text \<open>
  The callback of \<open>params.map\<close> in \<open>handleSync\<close>: the interval in milliseconds, or
  \<open>None\<close> where the callback throws.
\<close>

definition sync_interval :: "string \<Rightarrow> int option" where
  "sync_interval p =
     (case parseInt p of
        None \<Rightarrow> None
      | Some hours \<Rightarrow> if hours < 1 \<or> hours > 72 then None else Some (hours * 3600000))"

fun map_throw :: "('a \<Rightarrow> 'b option) \<Rightarrow> 'a list \<Rightarrow> 'b list option" where
  "map_throw f [] = Some []"
| "map_throw f (x # xs) =
     (case f x of
        None \<Rightarrow> None
      | Some y \<Rightarrow> (case map_throw f xs of None \<Rightarrow> None | Some ys \<Rightarrow> Some (y # ys)))"

definition SYNC_INVALID :: string where
  "SYNC_INVALID =
     ''Please provide valid intervals between 1-72 hours, e.g., '' @ [CHR 0x27]
       @ '':sync 1 2 4'' @ [CHR 0x27]"

text \<open>
  The whole body of \<open>handleSync\<close> after the read is inside \<open>try\<close>: a throwing
  callback and the \<open>TypeError\<close> of writing to an absent record both end in the
  \<open>catch\<close>, which returns the validation text.
\<close>

definition handleSync :: "database \<Rightarrow> string \<Rightarrow> string list \<Rightarrow> error + database \<times> string" where
  "handleSync db phoneNumber params =
     (case map_throw sync_interval params of
        None \<Rightarrow> Inr (db, SYNC_INVALID)
      | Some intervals \<Rightarrow>
          (case get_user db phoneNumber of
             None \<Rightarrow> Inr (db, SYNC_INVALID)
           | Some u \<Rightarrow>
               Inr (set_user db phoneNumber
                      (u\<lparr>sendIntervals := intervals, currentIntervalIndex := Some 0\<rparr>),
                    ''Messages will now be sent with intervals: '' @ join_comma params
                      @ '' hours'')))"

text \<open>
  \<open>handleSlow\<close> multiplies every interval by \<open>1 + factor\<close>. The product is the
  program's while it is at most \<open>2 ^ 53\<close> (see the remark on numbers above).
\<close>

definition handleSlow :: "database \<Rightarrow> string \<Rightarrow> string list \<Rightarrow> error + database \<times> string" where
  "handleSlow db phoneNumber params =
     (case parseInt_at params 0 of
        None \<Rightarrow> Inr (db, ''Please specify a number between 0 and 30.'')
      | Some factor \<Rightarrow>
          if factor \<ge> 0 \<and> factor \<le> 30 then
            (case get_user db phoneNumber of
               None \<Rightarrow> Inl TypeError
             | Some u \<Rightarrow>
                 Inr (set_user db phoneNumber
                        (u\<lparr>sendIntervals :=
                             map (\<lambda>interval. interval * (1 + factor)) (sendIntervals u)\<rparr>),
                      ''Message intervals have been increased by '' @ show_int factor @ ''x.''))
          else Inr (db, ''Please specify a number between 0 and 30.''))"

definition lesson_number :: "string \<Rightarrow> nat option" where
  "lesson_number p =
     (case parseInt p of
        None \<Rightarrow> None
      | Some num \<Rightarrow> if num < 0 \<or> num > 8 then None else Some (nat num))"

definition selected_indices :: "int list \<Rightarrow> nat list" where
  "selected_indices weights = filter (\<lambda>i. weights ! i = 1) [0 ..< length weights]"

definition LESSONS_INVALID :: string where
  "LESSONS_INVALID =
     ''Please provide valid lesson numbers between 0-8, e.g., '' @ [CHR 0x27]
       @ '':lessons 1'' @ [CHR 0x27] @ '' or '' @ [CHR 0x27] @ '':lessons 1 2 3'' @ [CHR 0x27]"

definition handleLessons :: "database \<Rightarrow> string \<Rightarrow> string list \<Rightarrow> error + database \<times> string" where
  "handleLessons db phoneNumber params =
     (case map_throw lesson_number params of
        None \<Rightarrow> Inr (db, LESSONS_INVALID)
      | Some selections \<Rightarrow>
          (let weights = fold (\<lambda>lessonNum ws. ws[lessonNum := 1]) selections (replicate 9 0)
           in case get_user db phoneNumber of
                None \<Rightarrow> Inr (db, LESSONS_INVALID)
              | Some u \<Rightarrow>
                  Inr (set_user db phoneNumber (u\<lparr>lessonWeights := weights\<rparr>),
                       ''Now sending content from lessons: ''
                         @ join_comma (map (\<lambda>i. show_int (int i)) (selected_indices weights)))))"

definition HELP_MESSAGE :: string where
  "HELP_MESSAGE =
     [CHR 0x0A] @ ''Available commands:'' @ [CHR 0x0A]
     @ '':begin - Start receiving messages'' @ [CHR 0x0A]
     @ '':begin [hours] - Start for specific duration'' @ [CHR 0x0A]
     @ '':stop - Stop messages'' @ [CHR 0x0A]
     @ '':stop in/for [hours] - Schedule stop'' @ [CHR 0x0A]
     @ '':sync [hours...] - Set staggered message intervals'' @ [CHR 0x0A]
     @ '':slow [0-30] - Reduce message frequency'' @ [CHR 0x0A]
     @ '':lessons [numbers] - Select which lessons to receive (0-8)'' @ [CHR 0x0A]
     @ '':help - Show this message'' @ [CHR 0x0A]
     @ [CHR 0x0A] @ ''Examples:'' @ [CHR 0x0A]
     @ '':sync 1 2 4 - Send messages every 1, then 2, then 4 hours'' @ [CHR 0x0A]
     @ '':lessons 1 2 - Only receive content from lessons 1 and 2'' @ [CHR 0x0A]
     @ '':lessons 0 - Only receive content from lesson 0'' @ [CHR 0x0A]"

definition UNKNOWN_COMMAND :: string where
  "UNKNOWN_COMMAND = ''Unknown command. Text :help for available commands.''"

section \<open>The inbound message endpoint\<close>

text \<open>
  \<open>app.post('/sms')\<close>: the result is the error the handler throws, or the database
  after the request with the text put into the reply (\<open>None\<close> when the reply
  carries no message). The doubling in the \<open>yes\<close> branch is the program's under
  the same bound as the product in \<open>handleSlow\<close>.
\<close>

definition sms :: "database \<Rightarrow> int \<Rightarrow> string \<Rightarrow> string \<Rightarrow> error + database \<times> string option" where
  "sms db now message phoneNumber =
     (if toLowerCase message = ''yes'' \<or> toLowerCase message = ''no'' then
        (case get_user db phoneNumber of
           None \<Rightarrow> Inr (db, None)
         | Some u \<Rightarrow>
             if messageCount u \<ge> 100 then
               (if toLowerCase message = ''yes'' then
                  Inr (set_user db phoneNumber
                         (u\<lparr>sendIntervals := map (\<lambda>interval. interval * 2) (sendIntervals u)\<rparr>),
                       Some ''Message frequency has been reduced by half.'')
                else Inr (db, Some ''Continuing with current frequency.''))
             else Inr (db, None))
      else if message \<noteq> [] \<and> hd message = CHR '':'' then
        (let parts = split_sp (tl message);
             command = hd parts;
             params = tl parts;
             response =
               (if command = ''begin'' then handleBegin db now phoneNumber params
                else if command = ''stop'' then handleStop db now phoneNumber params
                else if command = ''sync'' then handleSync db phoneNumber params
                else if command = ''slow'' then handleSlow db phoneNumber params
                else if command = ''lessons'' then handleLessons db phoneNumber params
                else if command = ''help'' then Inr (db, HELP_MESSAGE)
                else Inr (db, UNKNOWN_COMMAND))
         in case response of
              Inl err \<Rightarrow> Inl err
            | Inr (db', text) \<Rightarrow> Inr (db', Some text))
      else Inr (db, Some UNKNOWN_COMMAND))"

section \<open>The status route\<close>

text \<open>
  A request to \<open>GET /api/status/:phoneNumber\<close>: the route parameter, and the
  \<open>phoneNumber\<close> property of the parsed request body (\<open>None\<close> when the request has
  no body or the body has no such property).
\<close>

datatype status_request =
  StatusRequest (params_phoneNumber: string) (body_phoneNumber: "string option")

datatype status_response =
    Status200 (st_active: bool) (st_messageCount: int) (nextMessageIn: int)
      (activeLessons: "nat list")
  | Status400
  | Status404

text \<open>The test \<open>/^\+\d+$/\<close>.\<close>

definition plus_digits :: "string \<Rightarrow> bool" where
  "plus_digits s =
     (case s of
        [] \<Rightarrow> False
      | c # cs \<Rightarrow> c = CHR ''+'' \<and> cs \<noteq> [] \<and> list_all (is_digit 10) cs)"

text \<open>\<open>validatePhoneNumber\<close> reads \<open>req.body\<close>; \<open>True\<close> when it calls \<open>next()\<close>.\<close>

definition validatePhoneNumber :: "status_request \<Rightarrow> bool" where
  "validatePhoneNumber req =
     (case body_phoneNumber req of
        None \<Rightarrow> False
      | Some phoneNumber \<Rightarrow>
          if phoneNumber = [] then False
          else if hd phoneNumber \<noteq> CHR ''+'' then False
          else plus_digits phoneNumber)"

definition status_route :: "database \<Rightarrow> int \<Rightarrow> status_request \<Rightarrow> status_response" where
  "status_route db now req =
     (if \<not> validatePhoneNumber req then Status400
      else
        (case get_user db (params_phoneNumber req) of
           None \<Rightarrow> Status404
         | Some u \<Rightarrow>
             Status200 (active u) (messageCount u)
               (max 0 ((case nextSendTime u of None \<Rightarrow> 0 | Some t \<Rightarrow> t) - now))
               (selected_indices (lessonWeights u))))"

section \<open>The outside world\<close>

text \<open>
  What the program does not decide is a parameter: the value of the \<open>k\<close>-th call of
  \<open>Math.random()\<close>, the answer of the content API to the \<open>k\<close>-th request, whether the
  \<open>k\<close>-th call of \<open>client.messages.create\<close> resolves, and \<open>BASE_URL\<close>.
\<close>

text \<open>
  The body of a response as the program reads it: \<open>res.json()\<close> throws (or gives
  \<open>null\<close>, so that reading \<open>contents.contents\<close> throws); or the parsed object has
  no \<open>contents\<close>; or \<open>contents\<close> is an array, given by the \<open>content_html\<close> of
  each item (\<open>None\<close> when an item has none).
\<close>

datatype body = Unparsable | NoContents | Contents "string option list"

text \<open>
  The answer to a \<open>fetch\<close>: the promise rejects, or there is a response with a
  status and a body.
\<close>

datatype fetch_result = Rejected | Response nat body

record env =
  random :: "nat \<Rightarrow> rat"
  arena :: "nat \<Rightarrow> string \<Rightarrow> fetch_result"
  deliver :: "nat \<Rightarrow> string \<Rightarrow> string \<Rightarrow> bool"
  BASE_URL :: string

text \<open>
  The trace of effects: how many random numbers were drawn, the URLs requested from
  the content API, and the calls of \<open>client.messages.create\<close> (recipient and body),
  oldest first.
\<close>

record world =
  randoms_used :: nat
  requests :: "string list"
  messages :: "(string \<times> string) list"

text \<open>\<open>Math.random()\<close>.\<close>

definition Math_random :: "env \<Rightarrow> world \<Rightarrow> rat \<times> world" where
  "Math_random e w = (random e (randoms_used w), w\<lparr>randoms_used := Suc (randoms_used w)\<rparr>)"

text \<open>\<open>Math.floor(Math.random() * n)\<close>.\<close>

definition floor_random :: "env \<Rightarrow> nat \<Rightarrow> world \<Rightarrow> int \<times> world" where
  "floor_random e n w = (\<lfloor>fst (Math_random e w) * of_nat n\<rfloor>, snd (Math_random e w))"

definition fetch :: "env \<Rightarrow> string \<Rightarrow> world \<Rightarrow> fetch_result \<times> world" where
  "fetch e url w = (arena e (length (requests w)) url, w\<lparr>requests := requests w @ [url]\<rparr>)"

text \<open>\<open>client.messages.create\<close>: \<open>True\<close> when the promise resolves.\<close>

definition create_message :: "env \<Rightarrow> string \<Rightarrow> string \<Rightarrow> world \<Rightarrow> bool \<times> world" where
  "create_message e to body w =
     (deliver e (length (messages w)) to body, w\<lparr>messages := messages w @ [(to, body)]\<rparr>)"

section \<open>The content fetcher\<close>

definition channels :: "string list" where
  "channels =
     [''hoon-academy-0'', ''hoon-academy-1'', ''hoon-academy-2'',
      ''hoon-academy-3'', ''hoon-academy-4'', ''hoon-academy-5'',
      ''hoon-academy-6'', ''hoon-academy-7'', ''hoon-academy-8'']"

text \<open>
  The array \<open>activeChannels\<close>: for every index whose weight is \<open>1\<close> the entry
  \<open>channels[index]\<close>, which is \<open>undefined\<close> (\<open>None\<close>) beyond the table.
\<close>

definition activeChannels :: "int list \<Rightarrow> string option list" where
  "activeChannels weights =
     map (\<lambda>index. js_index channels (int index)) (selected_indices weights)"

text \<open>A value inside a template literal: \<open>undefined\<close> prints as the word.\<close>

definition template :: "string option \<Rightarrow> string" where
  "template v = (case v of None \<Rightarrow> ''undefined'' | Some s \<Rightarrow> s)"

definition channel_url :: "string option \<Rightarrow> string" where
  "channel_url selectedChannel =
     ''https://api.are.na/v2/channels/'' @ template selectedChannel @ ''/contents''"

subsection \<open>Base64\<close>

definition b64_char :: "nat \<Rightarrow> char" where
  "b64_char n =
     (if n < 26 then char_of (65 + n)
      else if n < 52 then char_of (71 + n)
      else if n < 62 then char_of (n - 4)
      else if n = 62 then CHR ''+'' else CHR ''/'')"

fun b64_groups :: "nat list \<Rightarrow> string" where
  "b64_groups (a # b # c # r) =
     [b64_char (a div 4), b64_char ((a mod 4) * 16 + b div 16),
      b64_char ((b mod 16) * 4 + c div 64), b64_char (c mod 64)] @ b64_groups r"
| "b64_groups [a, b] =
     [b64_char (a div 4), b64_char ((a mod 4) * 16 + b div 16),
      b64_char ((b mod 16) * 4), CHR ''='']"
| "b64_groups [a] = [b64_char (a div 4), b64_char ((a mod 4) * 16), CHR ''='', CHR ''='']"
| "b64_groups [] = []"

text \<open>\<open>Buffer.from(html).toString('base64')\<close>.\<close>

definition base64_encode :: "string \<Rightarrow> string" where
  "base64_encode html = b64_groups (map of_char html)"

text \<open>
  The value of a Base64 character as Node reads it: the standard and the URL-safe
  alphabet; \<open>None\<close> for every other character.
\<close>

definition unbase64 :: "char \<Rightarrow> nat option" where
  "unbase64 c =
     (let n = (of_char c :: nat) in
      if 65 \<le> n \<and> n \<le> 90 then Some (n - 65)
      else if 97 \<le> n \<and> n \<le> 122 then Some (n - 71)
      else if 48 \<le> n \<and> n \<le> 57 then Some (n + 4)
      else if c = CHR ''+'' \<or> c = CHR ''-'' then Some 62
      else if c = CHR ''/'' \<or> c = CHR ''_'' then Some 63
      else None)"

fun sextets :: "string \<Rightarrow> nat list" where
  "sextets [] = []"
| "sextets (c # cs) =
     (if c = CHR ''='' then []
      else (case unbase64 c of None \<Rightarrow> sextets cs | Some v \<Rightarrow> v # sextets cs))"

fun unb64_groups :: "nat list \<Rightarrow> nat list" where
  "unb64_groups (a # b # c # d # r) =
     [a * 4 + b div 16, (b mod 16) * 16 + c div 4, (c mod 4) * 64 + d] @ unb64_groups r"
| "unb64_groups [a, b, c] = [a * 4 + b div 16, (b mod 16) * 16 + c div 4]"
| "unb64_groups [a, b] = [a * 4 + b div 16]"
| "unb64_groups [a] = []"
| "unb64_groups [] = []"

text \<open>
  \<open>Buffer.from(s, 'base64').toString()\<close>: Node skips characters outside the
  alphabet and stops at the first \<open>=\<close>; it never throws on a string. \<open>toString\<close>
  reads the bytes as UTF-8 and puts U+FFFD for what is not; the model keeps the
  bytes, so it is the program on texts whose decoded bytes are UTF-8, among them
  the Base64 text of every string.
\<close>

definition base64_decode :: "string \<Rightarrow> string" where
  "base64_decode s = map char_of (unb64_groups (sextets s))"

subsection \<open>fetchArenaContent\<close>

record content =
  html :: string
  url :: string

text \<open>
  One pass through the \<open>try\<close> block of \<open>fetchWithRetry\<close>: it returns the content,
  or the response is not ok (with its status), or something throws. In
  \<open>contents.contents[Math.floor(Math.random() * contents.contents.length)]\<close> the
  random number is drawn before \<open>length\<close> is read, so a body without \<open>contents\<close>
  costs a random number before the \<open>TypeError\<close>.
\<close>

datatype attempt_result = Returned content | NotOk nat | Thrown error

definition attempt :: "env \<Rightarrow> int list \<Rightarrow> world \<Rightarrow> attempt_result \<times> world" where
  "attempt e weights w =
     (let (i, w1) = floor_random e (length (activeChannels weights)) w;
          selectedChannel =
            (case js_index (activeChannels weights) i of None \<Rightarrow> None | Some c \<Rightarrow> c);
          (res, w2) = fetch e (channel_url selectedChannel) w1
      in case res of
           Rejected \<Rightarrow> (Thrown FetchRejected, w2)
         | Response status body \<Rightarrow>
             if 200 \<le> status \<and> status \<le> 299 then
               (case body of
                  Unparsable \<Rightarrow> (Thrown TypeError, w2)
                | NoContents \<Rightarrow> (Thrown TypeError, snd (Math_random e w2))
                | Contents contents \<Rightarrow>
                    (let (j, w3) = floor_random e (length contents) w2
                     in case js_index contents j of
                          None \<Rightarrow> (Thrown TypeError, w3)
                        | Some content_html \<Rightarrow>
                            (let h = (case content_html of
                                        None \<Rightarrow> ''No content available''
                                      | Some t \<Rightarrow> if t = [] then ''No content available'' else t)
                             in (Returned \<lparr> html = h,
                                           url = BASE_URL e @ ''/content/'' @ base64_encode h \<rparr>,
                                 w3))))
             else (NotOk status, w2))"

text \<open>
  \<open>fetchWithRetry\<close>: status 404 retries from inside the \<open>try\<close> while
  \<open>retryCount < maxRetries\<close>; every other failure throws, and the \<open>catch\<close> retries
  under the same bound and rethrows beyond it.
\<close>

function fetchWithRetry ::
  "env \<Rightarrow> int list \<Rightarrow> nat \<Rightarrow> nat \<Rightarrow> world \<Rightarrow> (error + content) \<times> world" where
  "fetchWithRetry e weights retryCount maxRetries w =
     (case attempt e weights w of
        (Returned c, w') \<Rightarrow> (Inr c, w')
      | (NotOk status, w') \<Rightarrow>
          if status = 404 \<and> retryCount < maxRetries
          then fetchWithRetry e weights (retryCount + 1) maxRetries w'
          else if retryCount < maxRetries
          then fetchWithRetry e weights (retryCount + 1) maxRetries w'
          else (Inl (ApiCallFailed status), w')
      | (Thrown err, w') \<Rightarrow>
          if retryCount < maxRetries
          then fetchWithRetry e weights (retryCount + 1) maxRetries w'
          else (Inl err, w'))"
  by pat_completeness auto
termination
  by (relation "measure (\<lambda>(e, weights, retryCount, maxRetries, w). maxRetries - retryCount)") auto

declare fetchWithRetry.simps [simp del]

definition fetchArenaContent :: "env \<Rightarrow> int list \<Rightarrow> world \<Rightarrow> (error + content) \<times> world" where
  "fetchArenaContent e weights w = fetchWithRetry e weights 0 10 w"

section \<open>The content endpoint\<close>

text \<open>
  Express matches the request path against \<open>/content/:html\<close>: the literal part
  without regard to letter case, the parameter is one non-empty path segment
  (no \<open>/\<close> inside), a single trailing \<open>/\<close> is allowed.
\<close>

definition match_content_route :: "string \<Rightarrow> string option" where
  "match_content_route path =
     (if toLowerCase (take 9 path) = ''/content/'' then
        (let rest = drop 9 path;
             seg = (if rest \<noteq> [] \<and> last rest = CHR ''/'' then butlast rest else rest)
         in if seg \<noteq> [] \<and> CHR ''/'' \<notin> set seg then Some seg else None)
      else None)"

text \<open>
  \<open>decodeURIComponent\<close> on the parameter: \<open>%XX\<close> becomes the byte, a \<open>%\<close> without
  two hexadecimal digits is an error. The program also fails when the escaped
  bytes are not UTF-8; that check is left out, so the model is the program on
  parameters whose escapes spell UTF-8, among them every parameter without \<open>%\<close>.
\<close>

fun decodeURIComponent :: "string \<Rightarrow> string option" where
  "decodeURIComponent [] = Some []"
| "decodeURIComponent (c # cs) =
     (if c = CHR ''%'' then
        (case cs of
           h # l # r \<Rightarrow>
             if is_digit 16 h \<and> is_digit 16 l then
               (case decodeURIComponent r of
                  None \<Rightarrow> None
                | Some t \<Rightarrow> Some (char_of (digits_value 16 0 [h, l]) # t))
             else None
         | _ \<Rightarrow> None)
      else (case decodeURIComponent cs of None \<Rightarrow> None | Some t \<Rightarrow> Some (c # t)))"

datatype content_response = Content200 string | Content400 | Content404

text \<open>\<open>GET\<close> of a path on this server, as far as the content route answers it.\<close>

definition content_endpoint :: "string \<Rightarrow> content_response" where
  "content_endpoint path =
     (case match_content_route path of
        None \<Rightarrow> Content404
      | Some seg \<Rightarrow>
          (case decodeURIComponent seg of
             None \<Rightarrow> Content400
           | Some p \<Rightarrow> Content200 (base64_decode p)))"

text \<open>Following a content URL: the path is what comes after \<open>BASE_URL\<close>.\<close>

definition resolveContent :: "env \<Rightarrow> string \<Rightarrow> content_response" where
  "resolveContent e link =
     (if take (length (BASE_URL e)) link = BASE_URL e
      then content_endpoint (drop (length (BASE_URL e)) link)
      else Content404)"

section \<open>The dispatch tick\<close>

definition nugget_body :: "content \<Rightarrow> string" where
  "nugget_body c = ''Here'' @ [CHR 0x27] @ ''s your Hoon Academy nugget: '' @ url c"

definition SLOW_PROMPT :: string where
  "SLOW_PROMPT =
     ''You'' @ [CHR 0x27]
       @ ''ve gotten 100 tid bits of knowledge, want to slow down? respond with yes or no''"

text \<open>
  The update after a delivered nugget: the interval at the current index is read
  first (\<open>undefined\<close> when the index is \<open>null\<close> or outside the array), then the index
  moves on, \<open>nextSendTime\<close> becomes \<open>now\<close> plus that interval, and the count grows.
\<close>

definition advance :: "int \<Rightarrow> user \<Rightarrow> user" where
  "advance now u =
     (let currentInterval =
            (case currentIntervalIndex u of
               None \<Rightarrow> None
             | Some i \<Rightarrow> js_index (sendIntervals u) i)
      in u\<lparr> currentIntervalIndex :=
               js_rem ((case currentIntervalIndex u of None \<Rightarrow> 0 | Some i \<Rightarrow> i) + 1)
                 (int (length (sendIntervals u))),
             nextSendTime :=
               (case currentInterval of None \<Rightarrow> None | Some d \<Rightarrow> Some (now + d)),
             messageCount := messageCount u + 1 \<rparr>)"

definition expired :: "int \<Rightarrow> user \<Rightarrow> bool" where
  "expired now u = (case endTime u of None \<Rightarrow> False | Some t \<Rightarrow> t \<noteq> 0 \<and> now > t)"

definition due :: "int \<Rightarrow> user \<Rightarrow> bool" where
  "due now u = (now \<ge> (case nextSendTime u of None \<Rightarrow> 0 | Some t \<Rightarrow> t))"

text \<open>
  The body of the loop of \<open>sendScheduledMessages\<close> for one entry. Whatever is thrown
  inside the \<open>try\<close> is caught and logged, and the loop goes on.
\<close>

definition dispatch_user :: "env \<Rightarrow> int \<Rightarrow> string \<Rightarrow> user \<Rightarrow> world \<Rightarrow> user \<times> world" where
  "dispatch_user e now phoneNumber u w =
     (if \<not> active u then (u\<lparr>active := False\<rparr>, w)
      else if expired now u then (u\<lparr>active := False\<rparr>, w)
      else if due now u then
        (case fetchArenaContent e (lessonWeights u) w of
           (Inl err, w1) \<Rightarrow> (u, w1)
         | (Inr c, w1) \<Rightarrow>
             (case create_message e phoneNumber (nugget_body c) w1 of
                (False, w2) \<Rightarrow> (u, w2)
              | (True, w2) \<Rightarrow>
                  (let u' = advance now u
                   in if messageCount u' = 100
                      then (u', snd (create_message e phoneNumber SLOW_PROMPT w2))
                      else (u', w2))))
      else (u, w))"

fun scan_users :: "env \<Rightarrow> int \<Rightarrow> database \<Rightarrow> world \<Rightarrow> database \<times> world" where
  "scan_users e now [] w = ([], w)"
| "scan_users e now ((phoneNumber, u) # rest) w =
     (let (u', w1) = dispatch_user e now phoneNumber u w;
          (rest', w2) = scan_users e now rest w1
      in ((phoneNumber, u') # rest', w2))"

text \<open>One tick: the database written at the end, and the trace.\<close>

definition sendScheduledMessages :: "env \<Rightarrow> int \<Rightarrow> database \<Rightarrow> world \<Rightarrow> database \<times> world" where
  "sendScheduledMessages e now db w = scan_users e now db w"

section \<open>Sequences of requests and ticks\<close>

text \<open>
  The same request made \<open>n\<close> times in a row, each on the database the one before
  wrote; it stops at the first request that throws.
\<close>

fun repeat_handler ::
  "nat \<Rightarrow> (database \<Rightarrow> error + database \<times> 'r) \<Rightarrow> database \<Rightarrow> error + database" where
  "repeat_handler 0 h db = Inr db"
| "repeat_handler (Suc n) h db =
     (case h db of Inl err \<Rightarrow> Inl err | Inr (db', reply) \<Rightarrow> repeat_handler n h db')"

text \<open>Ticks at the given times, one after another, each on the database the last wrote.\<close>

fun run_ticks :: "env \<Rightarrow> int list \<Rightarrow> database \<Rightarrow> world \<Rightarrow> database \<times> world" where
  "run_ticks e [] db w = (db, w)"
| "run_ticks e (now # nows) db w =
     (let (db', w') = sendScheduledMessages e now db w in run_ticks e nows db' w')"

section \<open>Notions the properties are stated with\<close>

text \<open>\<open>res.ok\<close>: there is a response and its status is in the 2xx range.\<close>

definition res_ok :: "fetch_result \<Rightarrow> bool" where
  "res_ok r = (case r of Rejected \<Rightarrow> False | Response status body \<Rightarrow> 200 \<le> status \<and> status \<le> 299)"

text \<open>How often the gateway was asked to send the slow-down prompt to a recipient.\<close>

definition prompts_to :: "string \<Rightarrow> world \<Rightarrow> nat" where
  "prompts_to p w = length (filter (\<lambda>m. m = (p, SLOW_PROMPT)) (messages w))"

text \<open>The prompt is sent when the count goes from below 100 to 100 or more.\<close>

definition crossing :: "int \<Rightarrow> int \<Rightarrow> nat" where
  "crossing before after = (if before < 100 \<and> 100 \<le> after then 1 else 0)"

text \<open>
  The invariant of a stored cadence: \<open>sendIntervals\<close> is a non-empty list of
  positive durations and \<open>currentIntervalIndex\<close> is a position in it.
\<close>

definition cadence_ok :: "user \<Rightarrow> bool" where
  "cadence_ok u =
     (sendIntervals u \<noteq> [] \<and> list_all (\<lambda>d. 0 < d) (sendIntervals u)
      \<and> (case currentIntervalIndex u of
            None \<Rightarrow> False
          | Some i \<Rightarrow> 0 \<le> i \<and> i < int (length (sendIntervals u))))"

section \<open>Concrete subscribers, answers and traces\<close>

text \<open>A subscriber right after \<open>:begin\<close> at time 0.\<close>

definition fresh :: user where
  "fresh =
     \<lparr> active = True, sendIntervals = [3600000],
       lessonWeights = replicate 9 1, messageCount = 0, endTime = None,
       nextSendTime = Some 0, currentIntervalIndex = Some 0 \<rparr>"

text \<open>A fresh subscriber after \<open>:lessons\<close> without arguments.\<close>

definition muted :: user where
  "muted =
     \<lparr> active = True, sendIntervals = [3600000],
       lessonWeights = replicate 9 0, messageCount = 0, endTime = None,
       nextSendTime = Some 0, currentIntervalIndex = Some 0 \<rparr>"

text \<open>A subscriber one nugget short of one hundred.\<close>

definition almost :: user where
  "almost =
     \<lparr> active = True, sendIntervals = [3600000],
       lessonWeights = replicate 9 1, messageCount = 99, endTime = None,
       nextSendTime = Some 0, currentIntervalIndex = Some 0 \<rparr>"


text \<open>A subscriber who has received one hundred nuggets, on a two-step cadence.\<close>

definition veteran :: user where
  "veteran =
     \<lparr> active = True, sendIntervals = [3600000, 7200000],
       lessonWeights = replicate 9 1, messageCount = 100, endTime = None,
       nextSendTime = Some 0, currentIntervalIndex = Some 0 \<rparr>"

text \<open>The empty trace.\<close>

definition world0 :: world where
  "world0 = \<lparr> randoms_used = 0, requests = [], messages = [] \<rparr>"

text \<open>A content API that answers every request with status 404.\<close>

definition remote_404 :: env where
  "remote_404 =
     \<lparr> random = (\<lambda>k. 0), arena = (\<lambda>k link. Response 404 Unparsable),
       deliver = (\<lambda>k to body. True), BASE_URL = ''http://localhost:3000'' \<rparr>"

text \<open>A content API that answers every request with one item.\<close>

definition remote_one :: env where
  "remote_one =
     \<lparr> random = (\<lambda>k. 0), arena = (\<lambda>k link. Response 200 (Contents [Some ''<p>ok?</p>''])),
       deliver = (\<lambda>k to body. True), BASE_URL = ''http://localhost:3000'' \<rparr>"

text \<open>A delivery gateway that rejects the first message and accepts the later ones.\<close>

definition flaky_gateway :: env where
  "flaky_gateway =
     \<lparr> random = (\<lambda>k. 0), arena = (\<lambda>k link. Response 200 (Contents [Some ''<p>ok?</p>''])),
       deliver = (\<lambda>k to body. 0 < k), BASE_URL = ''http://localhost:3000'' \<rparr>"

text \<open>The content every fetch from the one-item API returns.\<close>

definition sample_content :: content where
  "sample_content =
     \<lparr> html = ''<p>ok?</p>'', url = ''http://localhost:3000/content/PHA+b2s/PC9wPg=='' \<rparr>"

section \<open>Basic facts about the database\<close>

lemma get_user_set_user:
  "get_user (set_user db k v) q = (if q = k then Some v else get_user db q)"
  by (induction db) (auto simp: get_user_def)

lemma unknown_not_ack:
  "UNKNOWN_COMMAND \<noteq> ''Message frequency has been reduced by half.''"
  "UNKNOWN_COMMAND \<noteq> ''Continuing with current frequency.''"
  "''Message frequency has been reduced by half.'' \<noteq> UNKNOWN_COMMAND"
  "''Continuing with current frequency.'' \<noteq> UNKNOWN_COMMAND"
  by (simp_all add: UNKNOWN_COMMAND_def)

lemma veteran_fields:
  "messageCount veteran = 100" "sendIntervals veteran = [3600000, 7200000]"
  by (simp_all add: veteran_def)

section \<open>Replies of yes and no\<close>

text \<open>
  Claim C9. An inbound message that is \<open>yes\<close> or \<open>no\<close> in any letter case is never
  answered with the unknown-command text and never throws. When the sender has a
  record with \<open>messageCount \<ge> 100\<close>, \<open>yes\<close> doubles every entry of \<open>sendIntervals\<close>
  (nothing else of the record and no other record changes) and is acknowledged,
  and \<open>no\<close> changes nothing and is acknowledged. When the count is below 100 or
  the sender has no record, the database is unchanged and the reply is empty.
\<close>

theorem yes_no_reply:
  assumes "toLowerCase message = ''yes'' \<or> toLowerCase message = ''no''"
  shows "\<exists>db' reply. sms db now message phoneNumber = Inr (db', reply)
           \<and> reply \<noteq> Some UNKNOWN_COMMAND
           \<and> (case get_user db phoneNumber of
                 None \<Rightarrow> db' = db \<and> reply = None
               | Some u \<Rightarrow>
                   if messageCount u \<ge> 100 then
                     if toLowerCase message = ''yes'' then
                       get_user db' phoneNumber
                         = Some (u\<lparr>sendIntervals := map (\<lambda>d. d * 2) (sendIntervals u)\<rparr>)
                       \<and> (\<forall>q. q \<noteq> phoneNumber \<longrightarrow> get_user db' q = get_user db q)
                       \<and> reply = Some ''Message frequency has been reduced by half.''
                     else db' = db \<and> reply = Some ''Continuing with current frequency.''
                   else db' = db \<and> reply = None)"
  using assms
  by (auto simp: sms_def get_user_set_user unknown_not_ack split: option.splits)

theorem yes_no_reply_witness:
  "toLowerCase ''YES'' = ''yes''
   \<and> (\<exists>db'. sms [(''+15550100'', veteran)] 0 ''YES'' ''+15550100''
               = Inr (db', Some ''Message frequency has been reduced by half.'')
            \<and> map_option sendIntervals (get_user db' ''+15550100'') = Some [7200000, 14400000])"
proof -
  have h: "toLowerCase ''YES'' = ''yes''" by code_simp
  have g: "get_user [(''+15550100'', veteran)] ''+15550100'' = Some veteran"
    by (simp add: get_user_def)
  have "\<exists>db' reply. sms [(''+15550100'', veteran)] 0 ''YES'' ''+15550100'' = Inr (db', reply)
          \<and> get_user db' ''+15550100''
                = Some (veteran\<lparr>sendIntervals := map (\<lambda>d. d * 2) (sendIntervals veteran)\<rparr>)
          \<and> reply = Some ''Message frequency has been reduced by half.''"
    using yes_no_reply [of "''YES''" "[(''+15550100'', veteran)]" 0 "''+15550100''"] h
    by (simp add: g veteran_fields(1)) blast
  then show ?thesis
    using h by (auto simp: veteran_fields(2))
qed

section \<open>Slowing down has no upper bound\<close>

text \<open>
  The lemmas of this section compute with the integer products of the model;
  the theorem at its end adds the bound under which these are the numbers of
  the program.
\<close>

lemma handleSlow_scales:
  assumes "get_user db p = Some u" "parseInt_at params 0 = Some f" "0 \<le> f" "f \<le> 30"
  shows "\<exists>db' r. handleSlow db p params = Inr (db', r)
           \<and> get_user db' p
               = Some (u\<lparr>sendIntervals := map (\<lambda>d. d * (1 + f)) (sendIntervals u)\<rparr>)"
  using assms by (simp add: handleSlow_def get_user_set_user)

lemma yes_scales:
  assumes "get_user db p = Some u" "toLowerCase message = ''yes''" "100 \<le> messageCount u"
  shows "\<exists>db' r. sms db now message p = Inr (db', r)
           \<and> get_user db' p = Some (u\<lparr>sendIntervals := map (\<lambda>d. d * 2) (sendIntervals u)\<rparr>)"
  using assms by (simp add: sms_def get_user_set_user)

lemma repeat_scales:
  assumes step: "\<And>db u. get_user db p = Some u \<Longrightarrow> ok u \<Longrightarrow>
            \<exists>db' r. h db = Inr (db', r)
              \<and> get_user db' p = Some (u\<lparr>sendIntervals := map (\<lambda>d. d * k) (sendIntervals u)\<rparr>)"
    and keep: "\<And>u ivs. ok u \<Longrightarrow> ok (u\<lparr>sendIntervals := ivs\<rparr>)"
  shows "get_user db p = Some u \<Longrightarrow> ok u \<Longrightarrow>
         \<exists>db'. repeat_handler n h db = Inr db'
           \<and> get_user db' p = Some (u\<lparr>sendIntervals := map (\<lambda>d. d * k ^ n) (sendIntervals u)\<rparr>)"
proof (induction n arbitrary: db u)
  case 0
  then show ?case by simp
next
  case (Suc n)
  from step [OF Suc.prems] obtain db1 r where
    h1: "h db = Inr (db1, r)" and
    g1: "get_user db1 p = Some (u\<lparr>sendIntervals := map (\<lambda>d. d * k) (sendIntervals u)\<rparr>)"
    by blast
  from Suc.IH [OF g1 keep [OF Suc.prems(2)]] obtain db' where
    "repeat_handler n h db1 = Inr db'"
    "get_user db' p
       = Some (u\<lparr>sendIntervals :=
                   map (\<lambda>d. d * k ^ n) (map (\<lambda>d. d * k) (sendIntervals u))\<rparr>)"
    by auto
  then show ?case using h1 by (simp add: o_def mult.assoc)
qed

lemma grown_past_72h:
  fixes k :: int
  assumes "72 < k ^ n" "list_all (\<lambda>d. 3600000 \<le> d) ivs"
  shows "list_all (\<lambda>d. 72 * 3600000 < d) (map (\<lambda>d. d * k ^ n) ivs)"
proof -
  have k: "73 \<le> k ^ n" using assms(1) by simp
  have "\<And>d. 3600000 \<le> d \<Longrightarrow> 72 * 3600000 < d * k ^ n"
  proof -
    fix d :: int assume d: "3600000 \<le> d"
    have "3600000 * 73 \<le> d * k ^ n" using d k by (intro mult_mono) auto
    then show "72 * 3600000 < d * k ^ n" by simp
  qed
  then show ?thesis using assms(2) by (induction ivs) auto
qed

lemma products_on_the_way:
  fixes d k :: int
  assumes "0 \<le> d" "1 \<le> k" "m \<le> n" "d * k ^ n \<le> B"
  shows "d * k ^ m \<le> B"
proof -
  have "k ^ m \<le> k ^ n" using assms(2,3) by (intro power_increasing) auto
  then have "d * k ^ m \<le> d * k ^ n" using assms(1) by (intro mult_left_mono) auto
  then show ?thesis using assms(4) by simp
qed

lemma slow_repeated:
  assumes "get_user db p = Some u" "parseInt_at params 0 = Some f" "1 \<le> f" "f \<le> 30"
  shows "\<exists>db'. repeat_handler n (\<lambda>d. handleSlow d p params) db = Inr db'
          \<and> get_user db' p
              = Some (u\<lparr>sendIntervals := map (\<lambda>d. d * (1 + f) ^ n) (sendIntervals u)\<rparr>)"
proof (rule repeat_scales [where ok = "\<lambda>u. True"])
  fix db0 u0 assume "get_user db0 p = Some u0"
  then show "\<exists>db' r. handleSlow db0 p params = Inr (db', r)
               \<and> get_user db' p
                   = Some (u0\<lparr>sendIntervals := map (\<lambda>d. d * (1 + f)) (sendIntervals u0)\<rparr>)"
    using assms(2-4) by (intro handleSlow_scales) auto
qed (use assms(1) in auto)

lemma yes_repeated:
  assumes "get_user db p = Some u" "toLowerCase message = ''yes''" "100 \<le> messageCount u"
  shows "\<exists>db'. repeat_handler n (\<lambda>d. sms d now message p) db = Inr db'
          \<and> get_user db' p
              = Some (u\<lparr>sendIntervals := map (\<lambda>d. d * 2 ^ n) (sendIntervals u)\<rparr>)"
proof (rule repeat_scales [where ok = "\<lambda>u. 100 \<le> messageCount u"])
  fix db0 u0 assume "get_user db0 p = Some u0" "100 \<le> messageCount u0"
  then show "\<exists>db' r. sms db0 now message p = Inr (db', r)
               \<and> get_user db' p
                   = Some (u0\<lparr>sendIntervals := map (\<lambda>d. d * 2) (sendIntervals u0)\<rparr>)"
    using assms(2) by (intro yes_scales) auto
qed (use assms(1,3) in auto)

text \<open>
  Claim C10. The 1 to 72 hour range that \<open>:sync\<close> checks is not an invariant of
  the stored intervals. Take a subscriber with a record whose intervals are not
  negative, and \<open>n\<close> requests whose products stay within \<open>2 ^ 53\<close>, where the
  program's arithmetic is exact (the factor is at least 1, so every product on
  the way is at most the last one). Then \<open>n\<close> requests \<open>:slow f\<close> with
  \<open>1 \<le> f \<le> 30\<close> multiply every entry of \<open>sendIntervals\<close> by \<open>(1 + f) ^ n\<close>, and \<open>n\<close>
  replies \<open>yes\<close> at \<open>messageCount \<ge> 100\<close> multiply every entry by \<open>2 ^ n\<close>; no
  request is refused and nothing caps the product. When every entry was at
  least one hour and the factor \<open>(1 + f) ^ n\<close> or \<open>2 ^ n\<close> is above 72 (seven
  requests always suffice, two of \<open>:slow 30\<close> do), every entry is above 72 hours
  afterwards.
\<close>

theorem slowing_is_unbounded:
  assumes "get_user db p = Some u"
  shows "(parseInt_at params 0 = Some f \<and> 1 \<le> f \<and> f \<le> 30
            \<and> list_all (\<lambda>d. 0 \<le> d \<and> d * (1 + f) ^ n \<le> 2 ^ 53) (sendIntervals u) \<longrightarrow>
            (\<exists>db'. repeat_handler n (\<lambda>d. handleSlow d p params) db = Inr db'
               \<and> get_user db' p
                   = Some (u\<lparr>sendIntervals := map (\<lambda>d. d * (1 + f) ^ n) (sendIntervals u)\<rparr>)
               \<and> (72 < (1 + f) ^ n \<and> list_all (\<lambda>d. 3600000 \<le> d) (sendIntervals u) \<longrightarrow>
                    (\<exists>u'. get_user db' p = Some u'
                       \<and> list_all (\<lambda>d. 72 * 3600000 < d) (sendIntervals u')))))
       \<and> (toLowerCase message = ''yes'' \<and> 100 \<le> messageCount u
            \<and> list_all (\<lambda>d. 0 \<le> d \<and> d * 2 ^ n \<le> 2 ^ 53) (sendIntervals u) \<longrightarrow>
            (\<exists>db'. repeat_handler n (\<lambda>d. sms d now message p) db = Inr db'
               \<and> get_user db' p
                   = Some (u\<lparr>sendIntervals := map (\<lambda>d. d * 2 ^ n) (sendIntervals u)\<rparr>)
               \<and> ((72::int) < 2 ^ n \<and> list_all (\<lambda>d. 3600000 \<le> d) (sendIntervals u) \<longrightarrow>
                    (\<exists>u'. get_user db' p = Some u'
                       \<and> list_all (\<lambda>d. 72 * 3600000 < d) (sendIntervals u')))))"
proof (intro conjI impI)
  assume a: "parseInt_at params 0 = Some f \<and> 1 \<le> f \<and> f \<le> 30
    \<and> list_all (\<lambda>d. 0 \<le> d \<and> d * (1 + f) ^ n \<le> 2 ^ 53) (sendIntervals u)"
  from slow_repeated [OF assms, of params f n] a
  obtain db' where r: "repeat_handler n (\<lambda>d. handleSlow d p params) db = Inr db'"
    and g: "get_user db' p
              = Some (u\<lparr>sendIntervals := map (\<lambda>d. d * (1 + f) ^ n) (sendIntervals u)\<rparr>)"
    by blast
  have "72 < (1 + f) ^ n \<and> list_all (\<lambda>d. 3600000 \<le> d) (sendIntervals u) \<longrightarrow>
          list_all (\<lambda>d. 72 * 3600000 < d) (map (\<lambda>d. d * (1 + f) ^ n) (sendIntervals u))"
    using grown_past_72h [of "1 + f" n "sendIntervals u"] by auto
  with r g show "\<exists>db'. repeat_handler n (\<lambda>d. handleSlow d p params) db = Inr db'
      \<and> get_user db' p
          = Some (u\<lparr>sendIntervals := map (\<lambda>d. d * (1 + f) ^ n) (sendIntervals u)\<rparr>)
      \<and> (72 < (1 + f) ^ n \<and> list_all (\<lambda>d. 3600000 \<le> d) (sendIntervals u) \<longrightarrow>
           (\<exists>u'. get_user db' p = Some u'
              \<and> list_all (\<lambda>d. 72 * 3600000 < d) (sendIntervals u')))"
    by auto
next
  assume a: "toLowerCase message = ''yes'' \<and> 100 \<le> messageCount u
    \<and> list_all (\<lambda>d. 0 \<le> d \<and> d * 2 ^ n \<le> 2 ^ 53) (sendIntervals u)"
  from yes_repeated [OF assms, of message n now] a
  obtain db' where r: "repeat_handler n (\<lambda>d. sms d now message p) db = Inr db'"
    and g: "get_user db' p
              = Some (u\<lparr>sendIntervals := map (\<lambda>d. d * 2 ^ n) (sendIntervals u)\<rparr>)"
    by blast
  have "(72::int) < 2 ^ n \<and> list_all (\<lambda>d. 3600000 \<le> d) (sendIntervals u) \<longrightarrow>
          list_all (\<lambda>d. 72 * 3600000 < d) (map (\<lambda>d. d * 2 ^ n) (sendIntervals u))"
    using grown_past_72h [of 2 n "sendIntervals u"] by auto
  with r g show "\<exists>db'. repeat_handler n (\<lambda>d. sms d now message p) db = Inr db'
      \<and> get_user db' p
          = Some (u\<lparr>sendIntervals := map (\<lambda>d. d * 2 ^ n) (sendIntervals u)\<rparr>)
      \<and> ((72::int) < 2 ^ n \<and> list_all (\<lambda>d. 3600000 \<le> d) (sendIntervals u) \<longrightarrow>
           (\<exists>u'. get_user db' p = Some u'
              \<and> list_all (\<lambda>d. 72 * 3600000 < d) (sendIntervals u')))"
    by auto
qed

theorem slowing_is_unbounded_witness:
  "get_user [(''+15550100'', veteran)] ''+15550100'' = Some veteran
   \<and> parseInt_at [''1''] 0 = Some 1
   \<and> list_all (\<lambda>d. 0 \<le> d \<and> d * (1 + 1) ^ 7 \<le> (2::int) ^ 53) (sendIntervals veteran)
   \<and> (72::int) < (1 + 1) ^ 7
   \<and> list_all (\<lambda>d. 3600000 \<le> d) (sendIntervals veteran)
   \<and> (\<exists>db'. repeat_handler 7 (\<lambda>d. handleSlow d ''+15550100'' [''1''])
               [(''+15550100'', veteran)] = Inr db'
          \<and> map_option sendIntervals (get_user db' ''+15550100'')
              = Some [460800000, 921600000])
   \<and> toLowerCase ''Yes'' = ''yes''
   \<and> 100 \<le> messageCount veteran
   \<and> (\<exists>db'. repeat_handler 7 (\<lambda>d. sms d 0 ''Yes'' ''+15550100'')
               [(''+15550100'', veteran)] = Inr db'
          \<and> map_option sendIntervals (get_user db' ''+15550100'')
              = Some [460800000, 921600000])"
proof -
  have g: "get_user [(''+15550100'', veteran)] ''+15550100'' = Some veteran"
    by (simp add: get_user_def)
  have q: "parseInt_at [''1''] 0 = Some 1" by code_simp
  have h: "toLowerCase ''Yes'' = ''yes''" by code_simp
  have b: "list_all (\<lambda>d. 0 \<le> d \<and> d * (1 + 1) ^ 7 \<le> (2::int) ^ 53) (sendIntervals veteran)"
    "list_all (\<lambda>d. 0 \<le> d \<and> d * 2 ^ 7 \<le> (2::int) ^ 53) (sendIntervals veteran)"
    "list_all (\<lambda>d. 3600000 \<le> d) (sendIntervals veteran)"
    by (simp_all add: veteran_fields)
  note t = slowing_is_unbounded [OF g, of "[''1'']" 1 7 "''Yes''" 0]
  from t q b(1) obtain db1 where
    "repeat_handler 7 (\<lambda>d. handleSlow d ''+15550100'' [''1''])
       [(''+15550100'', veteran)] = Inr db1"
    "get_user db1 ''+15550100''
       = Some (veteran\<lparr>sendIntervals := map (\<lambda>d. d * (1 + 1) ^ 7) (sendIntervals veteran)\<rparr>)"
    by auto
  moreover from t h b(2) obtain db2 where
    "repeat_handler 7 (\<lambda>d. sms d 0 ''Yes'' ''+15550100'')
       [(''+15550100'', veteran)] = Inr db2"
    "get_user db2 ''+15550100''
       = Some (veteran\<lparr>sendIntervals := map (\<lambda>d. d * 2 ^ 7) (sendIntervals veteran)\<rparr>)"
    by (auto simp: veteran_fields)
  ultimately show ?thesis
    using g q h b by (simp add: veteran_fields)
qed

section \<open>The trace of a content fetch\<close>

lemma no_selected: "1 \<notin> set weights \<Longrightarrow> selected_indices weights = []"
  using nth_mem by (fastforce simp: selected_indices_def filter_empty_conv)

lemma attempt_messages: "messages (snd (attempt e weights w)) = messages w"
  by (simp add: attempt_def floor_random_def Math_random_def fetch_def Let_def
      split: prod.splits fetch_result.splits body.splits option.splits)

lemma attempt_requests_none:
  "1 \<notin> set weights \<Longrightarrow>
   requests (snd (attempt e weights w)) = requests w @ [channel_url None]"
  by (simp add: attempt_def floor_random_def Math_random_def fetch_def Let_def activeChannels_def no_selected
      js_index_def split: prod.splits fetch_result.splits body.splits option.splits)

lemma attempt_fails:
  assumes "\<forall>k link. \<not> res_ok (arena e k link)"
  shows "fst (attempt e weights w) \<noteq> Returned c"
proof -
  have "\<And>k link st body. arena e k link = Response st body \<Longrightarrow> \<not> (200 \<le> st \<and> st \<le> 299)"
    using assms by (metis (mono_tags, lifting) fetch_result.simps(5) res_ok_def)
  then show ?thesis
    by (auto simp: attempt_def floor_random_def Math_random_def fetch_def Let_def
        split: prod.splits fetch_result.splits body.splits option.splits)
qed

lemma attempt_status:
  assumes "\<forall>k link. arena e k link = Response st body" "\<not> (200 \<le> st \<and> st \<le> 299)"
  shows "fst (attempt e weights w) = NotOk st"
  using assms
  by (auto simp: attempt_def floor_random_def Math_random_def fetch_def Let_def
      split: prod.splits fetch_result.splits body.splits option.splits)

lemma fetchWithRetry_fails:
  assumes "\<forall>k link. \<not> res_ok (arena e k link)"
  shows "retryCount \<le> maxRetries \<Longrightarrow>
    isl (fst (fetchWithRetry e weights retryCount maxRetries w))
    \<and> length (requests (snd (fetchWithRetry e weights retryCount maxRetries w)))
        = length (requests w) + (maxRetries - retryCount + 1)"
proof (induction "maxRetries - retryCount" arbitrary: retryCount w)
  case 0
  then have nlt: "\<not> retryCount < maxRetries" by simp
  obtain r w' where a: "attempt e weights w = (r, w')" by force
  have rq: "length (requests w') = length (requests w) + 1"
    using a by (auto simp: attempt_def floor_random_def Math_random_def fetch_def Let_def
        split: prod.splits fetch_result.splits body.splits option.splits if_splits)
  show ?case
    using attempt_fails [OF assms, of weights w] a nlt rq 0
    by (subst (1 2) fetchWithRetry.simps) (auto split: attempt_result.splits)
next
  case (Suc n)
  then have lt: "retryCount < maxRetries" and n: "n = maxRetries - (retryCount + 1)"
    and le: "retryCount + 1 \<le> maxRetries" by auto
  obtain r w' where a: "attempt e weights w = (r, w')" by force
  have rq: "length (requests w') = length (requests w) + 1"
    using a by (auto simp: attempt_def floor_random_def Math_random_def fetch_def Let_def
        split: prod.splits fetch_result.splits body.splits option.splits if_splits)
  have "fetchWithRetry e weights retryCount maxRetries w
          = fetchWithRetry e weights (retryCount + 1) maxRetries w'"
    using attempt_fails [OF assms, of weights w] a lt
    by (subst fetchWithRetry.simps) (auto split: attempt_result.splits)
  then show ?case using Suc.hyps(1) [OF n le, of w'] rq lt by simp
qed

lemma fetchWithRetry_status:
  assumes "\<forall>k link. arena e k link = Response st b" "\<not> (200 \<le> st \<and> st \<le> 299)"
  shows "retryCount \<le> maxRetries \<Longrightarrow>
    fst (fetchWithRetry e weights retryCount maxRetries w) = Inl (ApiCallFailed st)"
proof (induction "maxRetries - retryCount" arbitrary: retryCount w)
  case 0
  then have nlt: "\<not> retryCount < maxRetries" by simp
  obtain r w' where a: "attempt e weights w = (r, w')" by force
  then have "r = NotOk st" using attempt_status [OF assms, of weights w] by simp
  then show ?case
    using a nlt by (subst fetchWithRetry.simps) simp
next
  case (Suc n)
  then have lt: "retryCount < maxRetries" and n: "n = maxRetries - (retryCount + 1)"
    and le: "retryCount + 1 \<le> maxRetries" by auto
  obtain r w' where a: "attempt e weights w = (r, w')" by force
  then have "r = NotOk st" using attempt_status [OF assms, of weights w] by simp
  then have "fetchWithRetry e weights retryCount maxRetries w
          = fetchWithRetry e weights (retryCount + 1) maxRetries w'"
    using a lt by (subst fetchWithRetry.simps) simp
  then show ?case using Suc.hyps(1) [OF n le, of w'] by simp
qed

lemma fetchWithRetry_messages:
  "messages (snd (fetchWithRetry e weights retryCount maxRetries w)) = messages w"
proof (induction e weights retryCount maxRetries w rule: fetchWithRetry.induct)
  case (1 e weights retryCount maxRetries w)
  show ?case
    apply (subst fetchWithRetry.simps)
    using 1 attempt_messages [of e weights w]
    by (auto split: prod.splits attempt_result.splits)
qed

lemma fetchWithRetry_requests_none:
  assumes "1 \<notin> set weights"
  shows "retryCount \<le> maxRetries \<Longrightarrow>
    \<exists>k. 1 \<le> k \<and> k \<le> maxRetries - retryCount + 1 \<and>
      requests (snd (fetchWithRetry e weights retryCount maxRetries w))
        = requests w @ replicate k (channel_url None)"
proof (induction "maxRetries - retryCount" arbitrary: retryCount w)
  case 0
  then have "\<not> retryCount < maxRetries" by simp
  then have "requests (snd (fetchWithRetry e weights retryCount maxRetries w))
               = requests (snd (attempt e weights w))"
    by (subst fetchWithRetry.simps) (auto split: prod.splits attempt_result.splits)
  then show ?case using attempt_requests_none [OF assms, of e w] by (intro exI [of _ 1]) simp
next
  case (Suc n)
  then have lt: "retryCount < maxRetries" and n: "n = maxRetries - (retryCount + 1)"
    and le: "retryCount + 1 \<le> maxRetries" by auto
  obtain r w' where a: "attempt e weights w = (r, w')" by force
  have rq: "requests w' = requests w @ [channel_url None]"
    using attempt_requests_none [OF assms, of e w] a by simp
  from Suc.hyps(1) [OF n le, of w'] obtain k where
    k: "1 \<le> k" "k \<le> maxRetries - (retryCount + 1) + 1"
      "requests (snd (fetchWithRetry e weights (retryCount + 1) maxRetries w'))
         = requests w' @ replicate k (channel_url None)" by blast
  show ?case
  proof (cases r)
    case (Returned c)
    then have "requests (snd (fetchWithRetry e weights retryCount maxRetries w)) = requests w'"
      using a by (subst fetchWithRetry.simps) simp
    then show ?thesis using rq by (intro exI [of _ 1]) simp
  next
    case (NotOk status)
    then have "fetchWithRetry e weights retryCount maxRetries w
                 = fetchWithRetry e weights (retryCount + 1) maxRetries w'"
      using a lt by (subst fetchWithRetry.simps) simp
    then show ?thesis using k rq lt
      by (intro exI [of _ "Suc k"]) (simp add: replicate_app_Cons_same)
  next
    case (Thrown err)
    then have "fetchWithRetry e weights retryCount maxRetries w
                 = fetchWithRetry e weights (retryCount + 1) maxRetries w'"
      using a lt by (subst fetchWithRetry.simps) simp
    then show ?thesis using k rq lt
      by (intro exI [of _ "Suc k"]) (simp add: replicate_app_Cons_same)
  qed
qed

section \<open>One subscriber in one tick\<close>

lemma dispatch_fetch_failed:
  assumes "active u" "\<not> expired now u" "due now u"
    and "isl (fst (fetchArenaContent e (lessonWeights u) w))"
  shows "dispatch_user e now p u w = (u, snd (fetchArenaContent e (lessonWeights u) w))"
  using assms by (auto simp: dispatch_user_def split: prod.splits sum.splits)

lemma dispatch_send_failed:
  assumes "active u" "\<not> expired now u" "due now u"
    and "fetchArenaContent e (lessonWeights u) w = (Inr c, w1)"
    and "\<not> fst (create_message e p (nugget_body c) w1)"
  shows "dispatch_user e now p u w = (u, snd (create_message e p (nugget_body c) w1))"
  using assms by (auto simp: dispatch_user_def split: prod.splits sum.splits bool.splits)

lemma dispatch_delivered:
  assumes "active u" "\<not> expired now u" "due now u"
    and "fetchArenaContent e (lessonWeights u) w = (Inr c, w1)"
    and "create_message e p (nugget_body c) w1 = (True, w2)"
  shows "fst (dispatch_user e now p u w) = advance now u"
  using assms by (auto simp: dispatch_user_def Let_def split: prod.splits sum.splits bool.splits)

section \<open>A subscriber with no lesson selected\<close>

lemma zero_weights: "1 \<notin> set (replicate 9 (0::int))"
  by simp

text \<open>
  What the fetch does when no weight is 1: every request it makes asks for the
  channel name \<open>undefined\<close>, and there are between 1 and 11 of them. When the
  API answers none with a 2xx status, the fetch fails after exactly 11 requests
  and the tick leaves the record as it was and sends nothing.
\<close>

lemma all_zero_weights_trace:
  assumes "lessonWeights u = replicate 9 0" "active u" "\<not> expired now u" "due now u"
  shows "(\<exists>k. 1 \<le> k \<and> k \<le> 11
            \<and> requests (snd (fetchArenaContent e (lessonWeights u) w))
                = requests w @ replicate k (channel_url None))
       \<and> ((\<forall>k link. \<not> res_ok (arena e k link)) \<longrightarrow>
            isl (fst (fetchArenaContent e (lessonWeights u) w))
            \<and> length (requests (snd (fetchArenaContent e (lessonWeights u) w)))
                = length (requests w) + 11
            \<and> fst (dispatch_user e now p u w) = u
            \<and> messages (snd (dispatch_user e now p u w)) = messages w)"
proof (intro conjI impI)
  show "\<exists>k. 1 \<le> k \<and> k \<le> 11
          \<and> requests (snd (fetchArenaContent e (lessonWeights u) w))
              = requests w @ replicate k (channel_url None)"
    using fetchWithRetry_requests_none [of "lessonWeights u" 0 10 e w] assms(1)
    by (simp add: fetchArenaContent_def)
next
  assume dead: "\<forall>k link. \<not> res_ok (arena e k link)"
  have f: "isl (fst (fetchArenaContent e (lessonWeights u) w))"
    "length (requests (snd (fetchArenaContent e (lessonWeights u) w)))
       = length (requests w) + 11"
    using fetchWithRetry_fails [OF dead, of 0 10 "lessonWeights u" w]
    by (simp_all add: fetchArenaContent_def)
  then show "isl (fst (fetchArenaContent e (lessonWeights u) w))"
    "length (requests (snd (fetchArenaContent e (lessonWeights u) w)))
       = length (requests w) + 11" by simp_all
  have d: "dispatch_user e now p u w = (u, snd (fetchArenaContent e (lessonWeights u) w))"
    using assms f(1) by (intro dispatch_fetch_failed)
  then show "fst (dispatch_user e now p u w) = u" by simp
  show "messages (snd (dispatch_user e now p u w)) = messages w"
    using d by (simp add: fetchArenaContent_def fetchWithRetry_messages)
qed

lemma remote_404_dead: "\<forall>k link. \<not> res_ok (arena remote_404 k link)"
  by (simp add: remote_404_def res_ok_def)

lemma remote_404_status: "\<forall>k link. arena remote_404 k link = Response 404 Unparsable"
  by (simp add: remote_404_def)

lemma muted_ready:
  "lessonWeights muted = replicate 9 0" "active muted" "\<not> expired 0 muted" "due 0 muted"
  by (simp_all add: muted_def expired_def due_def)

lemma b64_sample: "base64_encode ''<p>ok?</p>'' = ''PHA+b2s/PC9wPg==''"
  by code_simp

lemma attempt_remote_one:
  "attempt remote_one (replicate 9 0) w =
     (Returned \<lparr> html = ''<p>ok?</p>'',
                 url = ''http://localhost:3000/content/PHA+b2s/PC9wPg=='' \<rparr>,
      w\<lparr> randoms_used := Suc (Suc (randoms_used w)),
         requests := requests w @ [''https://api.are.na/v2/channels/undefined/contents''] \<rparr>)"
  by (simp add: attempt_def floor_random_def Math_random_def fetch_def Let_def activeChannels_def
      no_selected js_index_def remote_one_def channel_url_def template_def b64_sample)

text \<open>
  Claim C1 asks that for a subscriber whose \<open>lessonWeights\<close> are all zero the
  fetch fails, for want of an eligible category, before any request to the
  content API, and that the subscriber gets no message. The code at that input:
  \<open>:lessons\<close> without arguments stores the all-zero vector; the fetch then picks
  from the empty list of enabled channels, gets \<open>undefined\<close> and requests
  \<open>.../channels/undefined/contents\<close>. Against an API that answers 404 it makes 11
  requests and fails with the error of the last status; the tick then sends
  nothing and keeps the record. Against an API that answers that request with
  content, the tick sends the subscriber a nugget.
\<close>

theorem no_lesson_selected_still_fetches:
  "sms [(''+15550100'', fresh)] 0 '':lessons'' ''+15550100''
     = Inr ([(''+15550100'', muted)], Some ''Now sending content from lessons: '')
   \<and> fst (fetchArenaContent remote_404 (lessonWeights muted) world0) = Inl (ApiCallFailed 404)
   \<and> requests (snd (fetchArenaContent remote_404 (lessonWeights muted) world0))
     = replicate 11 ''https://api.are.na/v2/channels/undefined/contents''
   \<and> fst (dispatch_user remote_404 0 ''+15550100'' muted world0) = muted
   \<and> messages (snd (dispatch_user remote_404 0 ''+15550100'' muted world0)) = []
   \<and> messages (snd (dispatch_user remote_one 0 ''+15550100'' muted world0))
     = [(''+15550100'',
         ''Here'' @ [CHR 0x27] @ ''s your Hoon Academy nugget: ''
           @ ''http://localhost:3000/content/PHA+b2s/PC9wPg=='')]"
proof (intro conjI)
  have "fold (\<lambda>lessonNum ws. ws[lessonNum := 1]) [] (replicate 9 (0::int)) = replicate 9 0"
    by simp
  moreover have "fresh\<lparr>lessonWeights := replicate 9 0\<rparr> = muted"
    by (simp add: fresh_def muted_def)
  ultimately show "sms [(''+15550100'', fresh)] 0 '':lessons'' ''+15550100''
     = Inr ([(''+15550100'', muted)], Some ''Now sending content from lessons: '')"
    using no_selected [OF zero_weights]
    by (simp add: sms_def toLowerCase_def lower_char_def handleLessons_def get_user_def)
next
  show "fst (fetchArenaContent remote_404 (lessonWeights muted) world0) = Inl (ApiCallFailed 404)"
    using fetchWithRetry_status [OF remote_404_status, of 0 10 "lessonWeights muted" world0]
    by (simp add: fetchArenaContent_def)
next
  obtain k where k: "requests (snd (fetchArenaContent remote_404 (lessonWeights muted) world0))
      = requests world0 @ replicate k (channel_url None)"
    using fetchWithRetry_requests_none [of "lessonWeights muted" 0 10 remote_404 world0]
    by (auto simp: fetchArenaContent_def muted_ready(1))
  have "length (requests (snd (fetchArenaContent remote_404 (lessonWeights muted) world0)))
          = length (requests world0) + 11"
    using fetchWithRetry_fails [OF remote_404_dead, of 0 10 "lessonWeights muted" world0]
    by (simp add: fetchArenaContent_def)
  with k have "k = 11" by simp
  with k show "requests (snd (fetchArenaContent remote_404 (lessonWeights muted) world0))
     = replicate 11 ''https://api.are.na/v2/channels/undefined/contents''"
    by (simp add: world0_def channel_url_def template_def)
next
  note t = all_zero_weights_trace [OF muted_ready, of remote_404 world0 "''+15550100''"]
  show "fst (dispatch_user remote_404 0 ''+15550100'' muted world0) = muted"
    using t remote_404_dead by blast
  show "messages (snd (dispatch_user remote_404 0 ''+15550100'' muted world0)) = []"
    using t remote_404_dead by (simp add: world0_def)
next
  have "fetchArenaContent remote_one (replicate 9 0) world0 =
     (Inr \<lparr> html = ''<p>ok?</p>'',
             url = ''http://localhost:3000/content/PHA+b2s/PC9wPg=='' \<rparr>,
      world0\<lparr> randoms_used := Suc (Suc (randoms_used world0)),
         requests := requests world0 @ [''https://api.are.na/v2/channels/undefined/contents''] \<rparr>)"
    unfolding fetchArenaContent_def
    by (subst fetchWithRetry.simps) (simp add: attempt_remote_one)
  then show "messages (snd (dispatch_user remote_one 0 ''+15550100'' muted world0))
     = [(''+15550100'',
         ''Here'' @ [CHR 0x27] @ ''s your Hoon Academy nugget: ''
           @ ''http://localhost:3000/content/PHA+b2s/PC9wPg=='')]"
    by (simp add: dispatch_user_def muted_def expired_def due_def create_message_def
        nugget_body_def world0_def remote_one_def advance_def Let_def)
qed

section \<open>The scan over all subscribers\<close>

lemma scan_users_Cons:
  "scan_users e now ((p, u) # rest) w =
     ((p, fst (dispatch_user e now p u w))
        # fst (scan_users e now rest (snd (dispatch_user e now p u w))),
      snd (scan_users e now rest (snd (dispatch_user e now p u w))))"
  by (simp add: case_prod_beta Let_def)

lemma scan_users_append:
  "scan_users e now (xs @ ys) w =
     (fst (scan_users e now xs w) @ fst (scan_users e now ys (snd (scan_users e now xs w))),
      snd (scan_users e now ys (snd (scan_users e now xs w))))"
  by (induction xs arbitrary: w) (auto simp: case_prod_beta Let_def)

lemma scan_users_keys: "map fst (fst (scan_users e now db w)) = map fst db"
  by (induction db arbitrary: w) (auto simp: case_prod_beta Let_def)

text \<open>
  Claim C5. Take a subscriber that a tick tries to serve (active, not expired,
  due) and for whom the content fetch fails or the delivery of the nugget fails.
  The tick leaves that subscriber's record exactly as it was, so
  \<open>currentIntervalIndex\<close>, \<open>messageCount\<close> and \<open>nextSendTime\<close> keep their values,
  and the scan goes on: the entries after that subscriber are processed as a
  scan of their own would process them, starting from the trace the failed
  attempt left.
\<close>

theorem failed_dispatch_is_isolated:
  fixes e now pre w p u post
  defines "w1 \<equiv> snd (scan_users e now pre w)"
  defines "w2 \<equiv> snd (dispatch_user e now p u w1)"
  assumes "active u" "\<not> expired now u" "due now u"
    and "isl (fst (fetchArenaContent e (lessonWeights u) w1))
         \<or> (\<exists>c w'. fetchArenaContent e (lessonWeights u) w1 = (Inr c, w')
                \<and> \<not> fst (create_message e p (nugget_body c) w'))"
  shows "fst (dispatch_user e now p u w1) = u
       \<and> sendScheduledMessages e now (pre @ (p, u) # post) w
           = (fst (scan_users e now pre w) @ (p, u) # fst (scan_users e now post w2),
              snd (scan_users e now post w2))"
proof -
  have u: "fst (dispatch_user e now p u w1) = u"
    using assms(3-6) dispatch_fetch_failed [of u now e w1 p]
      dispatch_send_failed [of u now e w1 _ _ p]
    by auto
  have "scan_users e now ((p, u) # post) w1
          = ((p, u) # fst (scan_users e now post w2), snd (scan_users e now post w2))"
    using u by (simp add: w2_def scan_users_Cons del: scan_users.simps)
  then show ?thesis
    using u by (simp add: sendScheduledMessages_def scan_users_append w1_def del: scan_users.simps)
qed

lemma all_selected: "selected_indices (replicate 9 1) = [0, 1, 2, 3, 4, 5, 6, 7, 8]"
  by code_simp

lemma fetch_flaky:
  "fetchArenaContent flaky_gateway (replicate 9 1) w =
     (Inr sample_content,
      w\<lparr> randoms_used := Suc (Suc (randoms_used w)),
         requests := requests w @ [''https://api.are.na/v2/channels/hoon-academy-0/contents''] \<rparr>)"
proof -
  have "attempt flaky_gateway (replicate 9 1) w =
     (Returned sample_content,
      w\<lparr> randoms_used := Suc (Suc (randoms_used w)),
         requests := requests w @ [''https://api.are.na/v2/channels/hoon-academy-0/contents''] \<rparr>)"
    by (simp add: attempt_def floor_random_def Math_random_def fetch_def Let_def activeChannels_def
        all_selected js_index_def flaky_gateway_def channel_url_def template_def b64_sample
        channels_def sample_content_def)
  then show ?thesis
    unfolding fetchArenaContent_def by (subst fetchWithRetry.simps) simp
qed

lemma flaky_deliver: "deliver flaky_gateway k to body = (0 < k)"
  by (simp add: flaky_gateway_def)

lemma world0_fields: "randoms_used world0 = 0" "requests world0 = []" "messages world0 = []"
  by (simp_all add: world0_def)

lemma fresh_ready:
  "active fresh" "\<not> expired 0 fresh" "due 0 fresh" "lessonWeights fresh = replicate 9 1"
  by (simp_all add: fresh_def expired_def due_def)

theorem failed_dispatch_is_isolated_witness:
  "active fresh \<and> \<not> expired 0 fresh \<and> due 0 fresh
   \<and> (\<exists>c w'. fetchArenaContent flaky_gateway (lessonWeights fresh) world0 = (Inr c, w')
          \<and> \<not> fst (create_message flaky_gateway ''+15550100'' (nugget_body c) w'))
   \<and> fst (sendScheduledMessages flaky_gateway 0
             [(''+15550100'', fresh), (''+15550199'', fresh)] world0)
       = [(''+15550100'', fresh), (''+15550199'', advance 0 fresh)]
   \<and> messages (snd (sendScheduledMessages flaky_gateway 0
             [(''+15550100'', fresh), (''+15550199'', fresh)] world0))
       = [(''+15550100'', nugget_body sample_content),
          (''+15550199'', nugget_body sample_content)]"
proof -
  have w1: "snd (scan_users flaky_gateway 0 [] world0) = world0" by simp
  have fail: "\<exists>c w'. fetchArenaContent flaky_gateway (lessonWeights fresh) world0 = (Inr c, w')
          \<and> \<not> fst (create_message flaky_gateway ''+15550100'' (nugget_body c) w')"
    by (simp add: fresh_ready fetch_flaky create_message_def flaky_deliver world0_fields)
  have d1: "dispatch_user flaky_gateway 0 ''+15550100'' fresh world0
      = (fresh, \<lparr> randoms_used = 2,
           requests = [''https://api.are.na/v2/channels/hoon-academy-0/contents''],
           messages = [(''+15550100'', nugget_body sample_content)] \<rparr>)"
    by (simp add: dispatch_user_def fresh_ready fetch_flaky create_message_def flaky_deliver
        world0_fields)
  have d2: "dispatch_user flaky_gateway 0 ''+15550199'' fresh
       \<lparr> randoms_used = 2,
           requests = [''https://api.are.na/v2/channels/hoon-academy-0/contents''],
           messages = [(''+15550100'', nugget_body sample_content)] \<rparr>
      = (advance 0 fresh, \<lparr> randoms_used = 4,
           requests = [''https://api.are.na/v2/channels/hoon-academy-0/contents'',
                       ''https://api.are.na/v2/channels/hoon-academy-0/contents''],
           messages = [(''+15550100'', nugget_body sample_content),
                       (''+15550199'', nugget_body sample_content)] \<rparr>)"
    by (simp add: dispatch_user_def fresh_ready fetch_flaky create_message_def
        flaky_deliver Let_def)
      (simp add: advance_def fresh_def js_index_def js_rem_def)
  note t = failed_dispatch_is_isolated [of fresh 0 flaky_gateway "[]" world0 "''+15550100''"
      "[(''+15550199'', fresh)]", unfolded w1, OF fresh_ready(1-3) disjI2 [OF fail]]
  show ?thesis
    using t fail fresh_ready(1-3) by (simp add: d1 d2 scan_users_Cons del: scan_users.simps(2))
qed

section \<open>The slow-down prompt\<close>

lemma nugget_not_prompt: "nugget_body c \<noteq> SLOW_PROMPT"
  by (simp add: nugget_body_def SLOW_PROMPT_def)

lemma fetchArenaContent_messages:
  "messages (snd (fetchArenaContent e weights w)) = messages w"
  by (simp add: fetchArenaContent_def fetchWithRetry_messages)

lemma advance_count: "messageCount (advance now u) = messageCount u + 1"
  by (simp add: advance_def Let_def)

lemma dispatch_count:
  "messageCount u \<le> messageCount (fst (dispatch_user e now q u w))
   \<and> messageCount (fst (dispatch_user e now q u w)) \<le> messageCount u + 1"
  by (auto simp: dispatch_user_def Let_def advance_count split: prod.splits sum.splits bool.splits)

lemma dispatch_prompts:
  "prompts_to p (snd (dispatch_user e now q u w))
     = prompts_to p w
       + (if q = p then crossing (messageCount u) (messageCount (fst (dispatch_user e now q u w)))
          else 0)"
proof -
  have f: "\<And>c w1. fetchArenaContent e (lessonWeights u) w = (c, w1) \<Longrightarrow> messages w1 = messages w"
    using fetchArenaContent_messages [of e "lessonWeights u" w] by simp
  show ?thesis
    by (auto simp: dispatch_user_def Let_def advance_count prompts_to_def create_message_def
        crossing_def nugget_not_prompt dest!: f split: prod.splits sum.splits bool.splits)
qed

lemma crossing_add:
  "a \<le> b \<Longrightarrow> b \<le> c \<Longrightarrow> crossing a b + crossing b c = crossing a c"
  by (simp add: crossing_def)

lemma scan_prompts_absent:
  "p \<notin> fst ` set db \<Longrightarrow> prompts_to p (snd (scan_users e now db w)) = prompts_to p w"
  by (induction db arbitrary: w) (auto simp: case_prod_beta Let_def dispatch_prompts)

lemma scan_prompts:
  assumes "distinct (map fst db)" "map_of db p = Some u"
  shows "\<exists>u'. map_of (fst (scan_users e now db w)) p = Some u'
           \<and> messageCount u \<le> messageCount u'
           \<and> prompts_to p (snd (scan_users e now db w))
               = prompts_to p w + crossing (messageCount u) (messageCount u')"
  using assms
proof (induction db arbitrary: w)
  case Nil
  then show ?case by simp
next
  case (Cons a db)
  obtain q v where a: "a = (q, v)" by force
  show ?case
  proof (cases "q = p")
    case True
    then have "p \<notin> fst ` set db" "u = v" using Cons.prems a by auto
    then show ?thesis
      using True a dispatch_count [of v e now p w]
      by (simp add: scan_users_Cons scan_prompts_absent dispatch_prompts del: scan_users.simps(2))
  next
    case False
    then have "distinct (map fst db)" "map_of db p = Some u" using Cons.prems a by auto
    from Cons.IH [OF this, of "snd (dispatch_user e now q v w)"] show ?thesis
      using False a
      by (simp add: scan_users_Cons dispatch_prompts del: scan_users.simps(2))
  qed
qed

lemma run_ticks_prompts:
  assumes "distinct (map fst db)" "get_user db p = Some u"
  shows "\<exists>u'. get_user (fst (run_ticks e nows db w)) p = Some u'
           \<and> messageCount u \<le> messageCount u'
           \<and> prompts_to p (snd (run_ticks e nows db w))
               = prompts_to p w + crossing (messageCount u) (messageCount u')"
  using assms
proof (induction nows arbitrary: db w u)
  case Nil
  then show ?case by (simp add: crossing_def)
next
  case (Cons now nows)
  define db1 where "db1 = fst (scan_users e now db w)"
  define w1 where "w1 = snd (scan_users e now db w)"
  from scan_prompts [OF Cons.prems(1), of p u e now w] Cons.prems(2)
  obtain u1 where u1: "map_of db1 p = Some u1" "messageCount u \<le> messageCount u1"
    "prompts_to p w1 = prompts_to p w + crossing (messageCount u) (messageCount u1)"
    by (auto simp: get_user_def db1_def w1_def)
  have d1: "distinct (map fst db1)" using Cons.prems(1) by (simp add: db1_def scan_users_keys)
  from Cons.IH [OF d1, of u1 w1] u1(1)
  obtain u' where u': "get_user (fst (run_ticks e nows db1 w1)) p = Some u'"
    "messageCount u1 \<le> messageCount u'"
    "prompts_to p (snd (run_ticks e nows db1 w1))
       = prompts_to p w1 + crossing (messageCount u1) (messageCount u')"
    by (auto simp: get_user_def)
  have r: "run_ticks e (now # nows) db w = run_ticks e nows db1 w1"
    by (simp add: sendScheduledMessages_def db1_def w1_def case_prod_beta)
  show ?case
    unfolding r using u' u1 crossing_add [OF u1(2) u'(2)] by auto
qed

lemma dispatch_messages:
  assumes "active v" "\<not> expired now v" "due now v"
    and "fetchArenaContent e (lessonWeights v) w = (Inr c, w1)"
    and "create_message e p (nugget_body c) w1 = (True, w2)"
  shows "messages (snd (dispatch_user e now p v w))
     = messages w @ (p, nugget_body c) # (if messageCount v + 1 = 100 then [(p, SLOW_PROMPT)] else [])"
proof -
  have "messages w1 = messages w"
    using fetchArenaContent_messages [of e "lessonWeights v" w] assms(4) by simp
  then show ?thesis
    using assms
    by (auto simp: dispatch_user_def Let_def advance_count create_message_def)
qed

text \<open>
  Claim C8. Over any sequence of ticks the delivery gateway is asked to send the
  slow-down prompt to a subscriber exactly once if their \<open>messageCount\<close> goes
  from below 100 to 100 or more during those ticks, and not at all otherwise; in
  particular no tick that starts with a count of 100 or more sends it. Within a
  tick the prompt follows the delivered nugget exactly when that delivery makes
  the count 100. (The database has one entry per phone number, as an object
  has.)
\<close>

theorem prompt_sent_once:
  assumes "distinct (map fst db)" "get_user db p = Some u"
  shows "(\<exists>u'. get_user (fst (run_ticks e nows db w)) p = Some u'
            \<and> messageCount u \<le> messageCount u'
            \<and> prompts_to p (snd (run_ticks e nows db w))
                = prompts_to p w + crossing (messageCount u) (messageCount u'))
       \<and> (\<forall>now v c w1 w2.
             active v \<and> \<not> expired now v \<and> due now v
             \<and> fetchArenaContent e (lessonWeights v) w = (Inr c, w1)
             \<and> create_message e p (nugget_body c) w1 = (True, w2)
             \<longrightarrow> messages (snd (dispatch_user e now p v w))
                   = messages w @ (p, nugget_body c)
                       # (if messageCount v + 1 = 100 then [(p, SLOW_PROMPT)] else []))"
  using run_ticks_prompts [OF assms] dispatch_messages by blast

lemma fetch_remote_one:
  "fetchArenaContent remote_one (replicate 9 1) w =
     (Inr sample_content,
      w\<lparr> randoms_used := Suc (Suc (randoms_used w)),
         requests := requests w @ [''https://api.are.na/v2/channels/hoon-academy-0/contents''] \<rparr>)"
proof -
  have "attempt remote_one (replicate 9 1) w =
     (Returned sample_content,
      w\<lparr> randoms_used := Suc (Suc (randoms_used w)),
         requests := requests w @ [''https://api.are.na/v2/channels/hoon-academy-0/contents''] \<rparr>)"
    by (simp add: attempt_def floor_random_def Math_random_def fetch_def Let_def activeChannels_def
        all_selected js_index_def remote_one_def channel_url_def template_def b64_sample
        channels_def sample_content_def)
  then show ?thesis
    unfolding fetchArenaContent_def by (subst fetchWithRetry.simps) simp
qed

lemma remote_one_deliver: "deliver remote_one k to body = True"
  by (simp add: remote_one_def)

lemma almost_step:
  "advance 0 almost = almost\<lparr>nextSendTime := Some 3600000, messageCount := 100\<rparr>"
  by (simp add: advance_def almost_def js_index_def js_rem_def)

theorem prompt_sent_once_witness:
  "distinct (map fst [(''+15550100'', almost)])
   \<and> get_user [(''+15550100'', almost)] ''+15550100'' = Some almost
   \<and> map_option messageCount
        (get_user (fst (run_ticks remote_one [0, 3600000] [(''+15550100'', almost)] world0))
           ''+15550100'') = Some 101
   \<and> prompts_to ''+15550100''
        (snd (run_ticks remote_one [0, 3600000] [(''+15550100'', almost)] world0)) = 1
   \<and> messages (snd (run_ticks remote_one [0, 3600000] [(''+15550100'', almost)] world0))
       = [(''+15550100'', nugget_body sample_content), (''+15550100'', SLOW_PROMPT),
          (''+15550100'', nugget_body sample_content)]"
proof -
  have g: "get_user [(''+15550100'', almost)] ''+15550100'' = Some almost"
    by (simp add: get_user_def)
  have r0: "active almost" "\<not> expired 0 almost" "due 0 almost"
    "lessonWeights almost = replicate 9 1" "messageCount almost = 99"
    by (simp_all add: almost_def expired_def due_def)
  have r1: "active (advance 0 almost)" "\<not> expired 3600000 (advance 0 almost)"
    "due 3600000 (advance 0 almost)" "lessonWeights (advance 0 almost) = replicate 9 1"
    "messageCount (advance 0 almost) = 100"
    by (simp_all add: almost_step) (simp_all add: almost_def expired_def due_def)
  have d1: "dispatch_user remote_one 0 ''+15550100'' almost world0
      = (advance 0 almost,
         \<lparr> randoms_used = 2,
           requests = [''https://api.are.na/v2/channels/hoon-academy-0/contents''],
           messages = [(''+15550100'', nugget_body sample_content),
                       (''+15550100'', SLOW_PROMPT)] \<rparr>)"
    by (simp add: dispatch_user_def r0 r1 fetch_remote_one create_message_def
        remote_one_deliver world0_fields Let_def)
  have d2: "dispatch_user remote_one 3600000 ''+15550100'' (advance 0 almost)
         \<lparr> randoms_used = 2,
           requests = [''https://api.are.na/v2/channels/hoon-academy-0/contents''],
           messages = [(''+15550100'', nugget_body sample_content),
                       (''+15550100'', SLOW_PROMPT)] \<rparr>
      = (advance 3600000 (advance 0 almost),
         \<lparr> randoms_used = 4,
           requests = [''https://api.are.na/v2/channels/hoon-academy-0/contents'',
                       ''https://api.are.na/v2/channels/hoon-academy-0/contents''],
           messages = [(''+15550100'', nugget_body sample_content),
                       (''+15550100'', SLOW_PROMPT),
                       (''+15550100'', nugget_body sample_content)] \<rparr>)"
    by (simp add: dispatch_user_def r1 fetch_remote_one create_message_def
        remote_one_deliver Let_def advance_count r0(5))
  have run: "run_ticks remote_one [0, 3600000] [(''+15550100'', almost)] world0
      = ([(''+15550100'', advance 3600000 (advance 0 almost))],
         \<lparr> randoms_used = 4,
           requests = [''https://api.are.na/v2/channels/hoon-academy-0/contents'',
                       ''https://api.are.na/v2/channels/hoon-academy-0/contents''],
           messages = [(''+15550100'', nugget_body sample_content),
                       (''+15550100'', SLOW_PROMPT),
                       (''+15550100'', nugget_body sample_content)] \<rparr>)"
    by (simp add: sendScheduledMessages_def scan_users_Cons d1 d2 del: scan_users.simps(2))
  show ?thesis
    using prompt_sent_once [of "[(''+15550100'', almost)]" "''+15550100''" almost
        remote_one "[0, 3600000]" world0] g
    unfolding run
    by (simp add: get_user_def advance_count r0 prompts_to_def nugget_not_prompt)
qed

section \<open>The cadence after a sync\<close>

lemma advance_in_range:
  assumes "currentIntervalIndex u = Some (int i)" "i < length (sendIntervals u)"
  shows "advance now u
     = u\<lparr> currentIntervalIndex := Some (int (Suc i mod length (sendIntervals u))),
           nextSendTime := Some (now + sendIntervals u ! i),
           messageCount := messageCount u + 1 \<rparr>"
proof -
  have "js_rem (int i + 1) (int (length (sendIntervals u)))
          = Some (int (Suc i mod length (sendIntervals u)))"
    using assms(2) by (auto simp: js_rem_def zmod_int add.commute)
  then show ?thesis
    using assms by (simp add: advance_def js_index_def)
qed

lemma fold_advance:
  assumes "currentIntervalIndex u = Some (int i)" "i < length (sendIntervals u)"
  shows "sendIntervals (fold advance ts u) = sendIntervals u
       \<and> currentIntervalIndex (fold advance ts u)
           = Some (int ((i + length ts) mod length (sendIntervals u)))"
  using assms
proof (induction ts arbitrary: u i)
  case Nil
  then show ?case by simp
next
  case (Cons t ts)
  let ?v = "advance t u"
  have v: "sendIntervals ?v = sendIntervals u"
    "currentIntervalIndex ?v = Some (int (Suc i mod length (sendIntervals u)))"
    by (simp_all add: advance_in_range [OF Cons.prems])
  have "0 < length (sendIntervals u)" using Cons.prems(2) by auto
  then have lt: "Suc i mod length (sendIntervals u) < length (sendIntervals ?v)"
    using v(1) by simp
  from Cons.IH [OF v(2) lt] show ?case
    by (simp add: v(1) mod_add_left_eq)
qed

lemma map_throw_length: "map_throw f xs = Some ys \<Longrightarrow> length ys = length xs"
  by (induction xs arbitrary: ys) (auto split: option.splits)

lemma map_throw_sync_interval:
  "map_throw sync_interval params = Some ivs \<Longrightarrow>
   list_all2 (\<lambda>p d. \<exists>h. parseInt p = Some h \<and> 1 \<le> h \<and> h \<le> 72 \<and> d = h * 3600000) params ivs"
  by (induction params arbitrary: ivs)
    (auto simp: sync_interval_def split: option.splits if_splits)

text \<open>
  Claim C2. After a \<open>:sync\<close> whose arguments are all valid (at least one
  argument, each parsing to an hour count between 1 and 72) the subscriber's
  \<open>sendIntervals\<close> are those hours in milliseconds and the index is 0. From
  there, whatever the times \<open>ts\<close> of the earlier delivered dispatches were, the
  next delivered dispatch at time \<open>t\<close> sets \<open>nextSendTime\<close> to \<open>t\<close> plus the
  interval at position \<open>length ts mod length ivs\<close>, the index before the advance,
  and moves the index to the next position modulo the length: the intervals are
  consumed in the cyclic order of the arguments. A dispatch in which the fetch
  and the delivery succeed performs exactly this update.
\<close>

theorem sync_cadence_is_cyclic:
  assumes "get_user db p = Some u" "params \<noteq> []" "map_throw sync_interval params = Some ivs"
  shows "(\<exists>db' reply u0.
            handleSync db p params = Inr (db', reply) \<and> get_user db' p = Some u0
            \<and> sendIntervals u0 = ivs \<and> currentIntervalIndex u0 = Some 0
            \<and> list_all2 (\<lambda>p d. \<exists>h. parseInt p = Some h \<and> 1 \<le> h \<and> h \<le> 72 \<and> d = h * 3600000)
                 params ivs
            \<and> (\<forall>ts t.
                  nextSendTime (advance t (fold advance ts u0))
                    = Some (t + ivs ! (length ts mod length ivs))
                  \<and> currentIntervalIndex (advance t (fold advance ts u0))
                    = Some (int (Suc (length ts) mod length ivs))))
       \<and> (\<forall>e now w v c w1 w2.
             active v \<and> \<not> expired now v \<and> due now v
             \<and> fetchArenaContent e (lessonWeights v) w = (Inr c, w1)
             \<and> create_message e p (nugget_body c) w1 = (True, w2)
             \<longrightarrow> fst (dispatch_user e now p v w) = advance now v)"
proof (intro conjI)
  define u0 where "u0 = u\<lparr>sendIntervals := ivs, currentIntervalIndex := Some 0\<rparr>"
  have len: "0 < length ivs" using assms(2,3) map_throw_length by fastforce
  have h: "\<exists>reply. handleSync db p params = Inr (set_user db p u0, reply)"
    using assms by (simp add: handleSync_def u0_def)
  have i0: "currentIntervalIndex u0 = Some (int 0)" "0 < length (sendIntervals u0)"
    "sendIntervals u0 = ivs"
    using len by (simp_all add: u0_def)
  have cyc: "nextSendTime (advance t (fold advance ts u0))
               = Some (t + ivs ! (length ts mod length ivs))
             \<and> currentIntervalIndex (advance t (fold advance ts u0))
               = Some (int (Suc (length ts) mod length ivs))" for ts t
  proof -
    let ?v = "fold advance ts u0"
    have v: "sendIntervals ?v = ivs"
      "currentIntervalIndex ?v = Some (int (length ts mod length ivs))"
      using fold_advance [OF i0(1,2), of ts] i0(3) by simp_all
    have "length ts mod length ivs < length (sendIntervals ?v)" using len v(1) by simp
    from advance_in_range [OF v(2) this, of t] show ?thesis
      by (simp add: v(1) mod_Suc_eq)
  qed
  show "\<exists>db' reply u0.
            handleSync db p params = Inr (db', reply) \<and> get_user db' p = Some u0
            \<and> sendIntervals u0 = ivs \<and> currentIntervalIndex u0 = Some 0
            \<and> list_all2 (\<lambda>p d. \<exists>h. parseInt p = Some h \<and> 1 \<le> h \<and> h \<le> 72 \<and> d = h * 3600000)
                 params ivs
            \<and> (\<forall>ts t.
                  nextSendTime (advance t (fold advance ts u0))
                    = Some (t + ivs ! (length ts mod length ivs))
                  \<and> currentIntervalIndex (advance t (fold advance ts u0))
                    = Some (int (Suc (length ts) mod length ivs)))"
    using h i0 cyc map_throw_sync_interval [OF assms(3)]
    by (auto simp: get_user_set_user intro!: exI [of _ u0])
next
  show "\<forall>e now w v c w1 w2.
             active v \<and> \<not> expired now v \<and> due now v
             \<and> fetchArenaContent e (lessonWeights v) w = (Inr c, w1)
             \<and> create_message e p (nugget_body c) w1 = (True, w2)
             \<longrightarrow> fst (dispatch_user e now p v w) = advance now v"
    using dispatch_delivered by blast
qed

lemma sync_124: "map_throw sync_interval [''1'', ''2'', ''4''] = Some [3600000, 7200000, 14400000]"
  by code_simp

theorem sync_cadence_is_cyclic_witness:
  "get_user [(''+15550100'', fresh)] ''+15550100'' = Some fresh
   \<and> [''1'', ''2'', ''4''] \<noteq> []
   \<and> map_throw sync_interval [''1'', ''2'', ''4''] = Some [3600000, 7200000, 14400000]
   \<and> (\<exists>db' reply u0.
         handleSync [(''+15550100'', fresh)] ''+15550100'' [''1'', ''2'', ''4'']
           = Inr (db', reply)
         \<and> get_user db' ''+15550100'' = Some u0
         \<and> sendIntervals u0 = [3600000, 7200000, 14400000]
         \<and> map (\<lambda>ts. nextSendTime (advance 1000 (fold advance ts u0)))
               [[], [10], [10, 20], [10, 20, 30], [10, 20, 30, 40], [10, 20, 30, 40, 50]]
             = [Some 3601000, Some 7201000, Some 14401000,
                Some 3601000, Some 7201000, Some 14401000])"
proof -
  have g: "get_user [(''+15550100'', fresh)] ''+15550100'' = Some fresh"
    by (simp add: get_user_def)
  have ne: "[''1'', ''2'', ''4''] \<noteq> ([] :: string list)" by simp
  from sync_cadence_is_cyclic [OF g ne sync_124]
  obtain db' reply u0 where
    h: "handleSync [(''+15550100'', fresh)] ''+15550100'' [''1'', ''2'', ''4'']
          = Inr (db', reply)"
      "get_user db' ''+15550100'' = Some u0"
      "sendIntervals u0 = [3600000, 7200000, 14400000]"
    and c: "\<And>ts t. nextSendTime (advance t (fold advance ts u0))
          = Some (t + [3600000, 7200000, 14400000] ! (length ts mod 3))"
    by auto
  have "map (\<lambda>ts. nextSendTime (advance 1000 (fold advance ts u0)))
               [[], [10], [10, 20], [10, 20, 30], [10, 20, 30, 40], [10, 20, 30, 40, 50]]
             = [Some 3601000, Some 7201000, Some 14401000,
                Some 3601000, Some 7201000, Some 14401000]"
    using c [of 1000 "[]"] c [of 1000 "[10]"] c [of 1000 "[10, 20]"] c [of 1000 "[10, 20, 30]"]
      c [of 1000 "[10, 20, 30, 40]"] c [of 1000 "[10, 20, 30, 40, 50]"]
    by simp
  then have "\<exists>db' reply u0.
         handleSync [(''+15550100'', fresh)] ''+15550100'' [''1'', ''2'', ''4'']
           = Inr (db', reply)
         \<and> get_user db' ''+15550100'' = Some u0
         \<and> sendIntervals u0 = [3600000, 7200000, 14400000]
         \<and> map (\<lambda>ts. nextSendTime (advance 1000 (fold advance ts u0)))
               [[], [10], [10, 20], [10, 20, 30], [10, 20, 30, 40], [10, 20, 30, 40, 50]]
             = [Some 3601000, Some 7201000, Some 14401000,
                Some 3601000, Some 7201000, Some 14401000]"
    by (intro exI [of _ db'] exI [of _ reply] exI [of _ u0] conjI h)
  then show ?thesis by (intro conjI g ne sync_124)
qed

section \<open>Where the cadence invariant holds\<close>

lemma set_user_keys:
  "map fst (set_user db k v) = (if k \<in> fst ` set db then map fst db else map fst db @ [k])"
  by (induction db) auto

lemma set_user_distinct: "distinct (map fst db) \<Longrightarrow> distinct (map fst (set_user db k v))"
  by (simp add: set_user_keys)

lemma set_user_all:
  "list_all (\<lambda>e. P (snd e)) db \<Longrightarrow> P v \<Longrightarrow> list_all (\<lambda>e. P (snd e)) (set_user db k v)"
  by (induction db) auto

lemma get_user_all:
  "list_all (\<lambda>e. P (snd e)) db \<Longrightarrow> get_user db k = Some u \<Longrightarrow> P u"
  by (induction db) (auto simp: get_user_def split: if_splits)

lemma map_throw_sync_positive:
  "map_throw sync_interval params = Some ivs \<Longrightarrow> list_all (\<lambda>d. 0 < d) ivs"
  by (induction params arbitrary: ivs)
    (auto simp: sync_interval_def split: option.splits if_splits)

lemma scaled_positive:
  fixes k :: int
  shows "0 < k \<Longrightarrow> list_all (\<lambda>d. 0 < d) ivs \<Longrightarrow> list_all (\<lambda>d. 0 < d) (map (\<lambda>d. d * k) ivs)"
  by (induction ivs) auto

lemma cadence_frame:
  "cadence_ok (u\<lparr>active := a\<rparr>) = cadence_ok u"
  "cadence_ok (u\<lparr>endTime := t\<rparr>) = cadence_ok u"
  "cadence_ok (u\<lparr>lessonWeights := ws\<rparr>) = cadence_ok u"
  by (simp_all add: cadence_ok_def split: option.splits)

lemma cadence_scaled:
  "0 < k \<Longrightarrow> cadence_ok u \<Longrightarrow>
   cadence_ok (u\<lparr>sendIntervals := map (\<lambda>d. d * k) (sendIntervals u)\<rparr>)"
  by (auto simp: cadence_ok_def scaled_positive split: option.splits)

lemma cadence_sync:
  "ivs \<noteq> [] \<Longrightarrow> list_all (\<lambda>d. 0 < d) ivs \<Longrightarrow>
   cadence_ok (u\<lparr>sendIntervals := ivs, currentIntervalIndex := Some 0\<rparr>)"
  by (simp add: cadence_ok_def)

lemma cadence_advance: "cadence_ok u \<Longrightarrow> cadence_ok (advance now u)"
proof -
  assume ok: "cadence_ok u"
  then obtain i where i: "currentIntervalIndex u = Some (int i)" "i < length (sendIntervals u)"
    by (auto simp: cadence_ok_def split: option.splits intro: that [of "nat _"])
  have "0 < length (sendIntervals u)" using i(2) by auto
  then show ?thesis
    using ok by (simp add: advance_in_range [OF i] cadence_ok_def)
qed

lemma handleBegin_cadence:
  assumes "list_all (\<lambda>e. cadence_ok (snd e)) db" "handleBegin db now p params = Inr (db', r)"
  shows "list_all (\<lambda>e. cadence_ok (snd e)) db'"
proof -
  have "cadence_ok \<lparr> active = True, sendIntervals = [3600000], lessonWeights = replicate 9 1,
      messageCount = 0, endTime = t, nextSendTime = Some now, currentIntervalIndex = Some 0 \<rparr>"
    for t by (simp add: cadence_ok_def)
  then show ?thesis
    using assms by (auto simp: handleBegin_def Let_def intro!: set_user_all)
qed

lemma handleStop_cadence:
  assumes "list_all (\<lambda>e. cadence_ok (snd e)) db" "handleStop db now p params = Inr (db', r)"
  shows "list_all (\<lambda>e. cadence_ok (snd e)) db'"
  using assms get_user_all [OF assms(1), of p]
  by (auto simp: handleStop_def cadence_frame intro!: set_user_all
      split: option.splits if_splits)

lemma handleLessons_cadence:
  assumes "list_all (\<lambda>e. cadence_ok (snd e)) db" "handleLessons db p params = Inr (db', r)"
  shows "list_all (\<lambda>e. cadence_ok (snd e)) db'"
  using assms get_user_all [OF assms(1), of p]
  by (auto simp: handleLessons_def cadence_frame Let_def intro!: set_user_all
      split: option.splits if_splits)

lemma handleSlow_cadence:
  assumes "list_all (\<lambda>e. cadence_ok (snd e)) db" "handleSlow db p params = Inr (db', r)"
    and "list_all (\<lambda>e. list_all (\<lambda>d. d * 31 \<le> 2 ^ 53) (sendIntervals (snd e))) db"
  shows "list_all (\<lambda>e. cadence_ok (snd e)) db'"
  using assms get_user_all [OF assms(1), of p]
  by (auto simp: handleSlow_def intro!: set_user_all cadence_scaled
      split: option.splits if_splits)

lemma handleSync_cadence:
  assumes "list_all (\<lambda>e. cadence_ok (snd e)) db" "handleSync db p params = Inr (db', r)"
    and "params \<noteq> []"
  shows "list_all (\<lambda>e. cadence_ok (snd e)) db'"
proof (cases "map_throw sync_interval params")
  case None
  then show ?thesis using assms by (simp add: handleSync_def)
next
  case (Some ivs)
  then have "ivs \<noteq> []" "list_all (\<lambda>d. 0 < d) ivs"
    using assms(3) map_throw_length [OF Some] map_throw_sync_positive [OF Some] by auto
  then show ?thesis
    using assms Some
    by (auto simp: handleSync_def intro!: set_user_all cadence_sync split: option.splits)
qed

lemma split_sp_nonempty: "split_sp s \<noteq> []"
  by (induction s) (auto split: list.splits)

lemma split_sp_single: "split_sp s = [c] \<Longrightarrow> s = c"
  by (induction s arbitrary: c) (auto simp: split_sp_nonempty split: if_splits list.splits)

text \<open>
  Every inbound message other than a bare \<open>:sync\<close> keeps the invariant for all
  records, as long as no product leaves the range in which the arithmetic is
  exact (the largest factor of one request is 31), and so does a tick.
\<close>

lemma sms_cadence:
  assumes "list_all (\<lambda>e. cadence_ok (snd e)) db" "sms db now message p = Inr (db', r)"
    and "message \<noteq> '':sync''"
    and exact: "list_all (\<lambda>e. list_all (\<lambda>d. d * 31 \<le> 2 ^ 53) (sendIntervals (snd e))) db"
  shows "list_all (\<lambda>e. cadence_ok (snd e)) db'"
proof (cases "toLowerCase message = ''yes'' \<or> toLowerCase message = ''no''")
  case True
  then show ?thesis
    using assms get_user_all [OF assms(1), of p]
    by (auto simp: sms_def intro!: set_user_all cadence_scaled split: option.splits if_splits)
next
  case False
  show ?thesis
  proof (cases "message \<noteq> [] \<and> hd message = CHR '':''")
    case no: False
    then show ?thesis using assms False by (auto simp: sms_def)
  next
    case colon: True
    define parts where "parts = split_sp (tl message)"
    have bare: "tl parts \<noteq> []" if "hd parts = ''sync''"
    proof
      assume "tl parts = []"
      moreover have "parts \<noteq> []" unfolding parts_def by (rule split_sp_nonempty)
      ultimately have "parts = [''sync'']" using that by (cases parts) auto
      then have "tl message = ''sync''" unfolding parts_def by (rule split_sp_single)
      then have "message = '':sync''" using colon by (cases message) auto
      then show False using assms(3) by simp
    qed
    show ?thesis
      using assms(1,2) False colon bare
        handleBegin_cadence [OF assms(1), of now p "tl parts"]
        handleStop_cadence [OF assms(1), of now p "tl parts"]
        handleSync_cadence [OF assms(1), of p "tl parts"]
        handleSlow_cadence [OF assms(1) _ exact, of p "tl parts"]
        handleLessons_cadence [OF assms(1), of p "tl parts"]
      by (auto simp: sms_def Let_def parts_def [symmetric] split: sum.splits if_splits)
  qed
qed

lemma dispatch_cadence: "cadence_ok u \<Longrightarrow> cadence_ok (fst (dispatch_user e now p u w))"
  by (auto simp: dispatch_user_def Let_def cadence_frame cadence_advance
      split: prod.splits sum.splits bool.splits)

lemma tick_cadence:
  "list_all (\<lambda>e. cadence_ok (snd e)) db \<Longrightarrow>
   list_all (\<lambda>e. cadence_ok (snd e)) (fst (sendScheduledMessages e now db w))"
  unfolding sendScheduledMessages_def
  by (induction db arbitrary: w) (auto simp: case_prod_beta Let_def dispatch_cadence)

section \<open>A sync without arguments\<close>

text \<open>
  Claim C4 asks that every operation keeps \<open>sendIntervals\<close> non-empty with the
  index inside it. The code at \<open>:sync\<close> without arguments: the handler accepts
  the empty argument list and stores an empty \<open>sendIntervals\<close>; the next
  delivered dispatch then reads \<open>undefined\<close> as the interval and computes
  \<open>1 % 0\<close>, leaving both \<open>currentIntervalIndex\<close> and \<open>nextSendTime\<close> without a
  number.
\<close>

theorem sync_without_arguments_empties_cadence:
  "sms [(''+15550100'', fresh)] now '':sync'' ''+15550100''
     = Inr ([(''+15550100'', fresh\<lparr>sendIntervals := [], currentIntervalIndex := Some 0\<rparr>)],
            Some ''Messages will now be sent with intervals:  hours'')
   \<and> advance t (fresh\<lparr>sendIntervals := [], currentIntervalIndex := Some 0\<rparr>)
     = fresh\<lparr>sendIntervals := [], currentIntervalIndex := None, nextSendTime := None,
              messageCount := 1\<rparr>"
proof
  show "sms [(''+15550100'', fresh)] now '':sync'' ''+15550100''
     = Inr ([(''+15550100'', fresh\<lparr>sendIntervals := [], currentIntervalIndex := Some 0\<rparr>)],
            Some ''Messages will now be sent with intervals:  hours'')"
    by (simp add: sms_def toLowerCase_def lower_char_def handleSync_def get_user_def)
  show "advance t (fresh\<lparr>sendIntervals := [], currentIntervalIndex := Some 0\<rparr>)
     = fresh\<lparr>sendIntervals := [], currentIntervalIndex := None, nextSendTime := None,
              messageCount := 1\<rparr>"
    by (simp add: advance_def js_index_def js_rem_def fresh_def)
qed

section \<open>Commands from a sender without a record\<close>

text \<open>
  Claim C3 asks that a command other than \<open>begin\<close> from a sender without a
  record does not crash and is answered. The code at such inputs: \<open>:stop\<close>,
  \<open>:stop in 5\<close> and \<open>:slow 2\<close> throw a \<open>TypeError\<close> (they reach for a field of the
  absent record outside any \<open>try\<close>), so the endpoint sends no reply; \<open>:sync 1\<close>
  and \<open>:lessons 1\<close> hit the same error inside their \<open>try\<close> and answer with
  their validation text.
\<close>

theorem unknown_sender_stop_and_slow_throw:
  "sms [] now '':stop'' ''+15550100'' = Inl TypeError
   \<and> sms [] now '':stop in 5'' ''+15550100'' = Inl TypeError
   \<and> sms [] now '':slow 2'' ''+15550100'' = Inl TypeError
   \<and> sms [] now '':sync 1'' ''+15550100'' = Inr ([], Some SYNC_INVALID)
   \<and> sms [] now '':lessons 1'' ''+15550100'' = Inr ([], Some LESSONS_INVALID)"
proof (intro conjI)
  show "sms [] now '':stop'' ''+15550100'' = Inl TypeError"
    by (simp add: sms_def toLowerCase_def lower_char_def handleStop_def get_user_def)
  show "sms [] now '':stop in 5'' ''+15550100'' = Inl TypeError"
    by (simp add: sms_def toLowerCase_def lower_char_def handleStop_def get_user_def
        parseInt_at_def parseInt_def is_space_def is_digit_def digit_val_def)
  show "sms [] now '':slow 2'' ''+15550100'' = Inl TypeError"
    by (simp add: sms_def toLowerCase_def lower_char_def handleSlow_def get_user_def
        parseInt_at_def parseInt_def is_space_def is_digit_def digit_val_def)
  show "sms [] now '':sync 1'' ''+15550100'' = Inr ([], Some SYNC_INVALID)"
    by (simp add: sms_def toLowerCase_def lower_char_def handleSync_def get_user_def
        sync_interval_def parseInt_def is_space_def is_digit_def digit_val_def)
  show "sms [] now '':lessons 1'' ''+15550100'' = Inr ([], Some LESSONS_INVALID)"
    by (simp add: sms_def toLowerCase_def lower_char_def handleLessons_def get_user_def
        lesson_number_def parseInt_def is_space_def is_digit_def digit_val_def)
qed

section \<open>The status query\<close>

text \<open>
  Claim C6 asks that after \<open>:lessons 1 2\<close> a status query for the subscriber
  succeeds with \<open>activeLessons = [1, 2]\<close>. The code at that input: the route
  takes the phone number from the path, but its validation reads the request
  body; a query without a body is answered 400. With a body that carries a
  well-formed number the answer is 200 with \<open>activeLessons = [1, 2]\<close>.
\<close>

theorem status_query_is_validated_on_the_body:
  "sms [] 0 '':begin'' ''+15550100''
     = Inr ([(''+15550100'', fresh)],
            Some (''Service started! You'' @ [CHR 0x27]
                    @ ''ll receive Hoon Academy nuggets hourly.''))
   \<and> sms [(''+15550100'', fresh)] 0 '':lessons 1 2'' ''+15550100''
     = Inr ([(''+15550100'', fresh\<lparr>lessonWeights := [0, 1, 1, 0, 0, 0, 0, 0, 0]\<rparr>)],
            Some ''Now sending content from lessons: 1, 2'')
   \<and> status_route [(''+15550100'', fresh\<lparr>lessonWeights := [0, 1, 1, 0, 0, 0, 0, 0, 0]\<rparr>)] 0
        (StatusRequest ''+15550100'' None) = Status400
   \<and> status_route [(''+15550100'', fresh\<lparr>lessonWeights := [0, 1, 1, 0, 0, 0, 0, 0, 0]\<rparr>)] 0
        (StatusRequest ''+15550100'' (Some ''+15550100'')) = Status200 True 0 0 [1, 2]"
proof (intro conjI)
  show "sms [] 0 '':begin'' ''+15550100''
     = Inr ([(''+15550100'', fresh)],
            Some (''Service started! You'' @ [CHR 0x27]
                    @ ''ll receive Hoon Academy nuggets hourly.''))"
    by (simp add: sms_def toLowerCase_def lower_char_def handleBegin_def fresh_def)
  show "sms [(''+15550100'', fresh)] 0 '':lessons 1 2'' ''+15550100''
     = Inr ([(''+15550100'', fresh\<lparr>lessonWeights := [0, 1, 1, 0, 0, 0, 0, 0, 0]\<rparr>)],
            Some ''Now sending content from lessons: 1, 2'')"
    by code_simp
  show "status_route [(''+15550100'', fresh\<lparr>lessonWeights := [0, 1, 1, 0, 0, 0, 0, 0, 0]\<rparr>)] 0
        (StatusRequest ''+15550100'' None) = Status400"
    by (simp add: status_route_def validatePhoneNumber_def)
  show "status_route [(''+15550100'', fresh\<lparr>lessonWeights := [0, 1, 1, 0, 0, 0, 0, 0, 0]\<rparr>)] 0
        (StatusRequest ''+15550100'' (Some ''+15550100'')) = Status200 True 0 0 [1, 2]"
    by code_simp
qed

section \<open>Base64 there and back\<close>

lemma unbase64_b64_char: "n < 64 \<Longrightarrow> unbase64 (b64_char n) = Some n"
  by (auto simp: unbase64_def b64_char_def Let_def)

lemma b64_char_code:
  "n < 64 \<Longrightarrow> (of_char (b64_char n) :: nat) \<noteq> 61 \<and> (of_char (b64_char n) :: nat) \<noteq> 37"
  by (auto simp: b64_char_def)

lemma b64_char_not_pad: "n < 64 \<Longrightarrow> b64_char n \<noteq> CHR ''=''"
  using b64_char_code [of n] by auto

lemma b64_char_not_percent: "n < 64 \<Longrightarrow> b64_char n \<noteq> CHR ''%''"
  using b64_char_code [of n] by auto

lemma sextets_b64_char:
  "n < 64 \<Longrightarrow> sextets (b64_char n # cs) = n # sextets cs"
  by (simp add: unbase64_b64_char b64_char_not_pad)

lemma six_bounds:
  fixes a b c :: nat
  assumes "a < 256" "b < 256" "c < 256"
  shows "a div 4 < 64" "(a mod 4) * 16 + b div 16 < 64" "(b mod 16) * 4 + c div 64 < 64"
    "c mod 64 < 64" "(a mod 4) * 16 < 64" "(b mod 16) * 4 < 64"
  using assms by simp_all

lemma regroup1:
  fixes a b c :: nat
  assumes "b < 256"
  shows "a div 4 * 4 + ((a mod 4) * 16 + b div 16) div 16 = a"
proof -
  have "b div 16 < 16" using assms by simp
  then have "((a mod 4) * 16 + b div 16) div 16 = a mod 4" by simp
  then show ?thesis by simp
qed

lemma regroup2:
  fixes a b c :: nat
  assumes "b < 256" "c < 256"
  shows "(((a mod 4) * 16 + b div 16) mod 16) * 16 + ((b mod 16) * 4 + c div 64) div 4 = b"
proof -
  have "b div 16 < 16" using assms by simp
  then have x: "((a mod 4) * 16 + b div 16) mod 16 = b div 16" by simp
  have "c div 64 < 4" using assms by simp
  then have y: "((b mod 16) * 4 + c div 64) div 4 = b mod 16" by simp
  show ?thesis unfolding x y by simp
qed

lemma regroup3:
  fixes a b c :: nat
  assumes "c < 256"
  shows "(((b mod 16) * 4 + c div 64) mod 4) * 64 + c mod 64 = c"
proof -
  have "c div 64 < 4" using assms by simp
  then have x: "((b mod 16) * 4 + c div 64) mod 4 = c div 64" by simp
  show ?thesis unfolding x by simp
qed

lemma regroup4:
  fixes a b :: nat
  assumes "b < 256"
  shows "(((a mod 4) * 16 + b div 16) mod 16) * 16 + ((b mod 16) * 4) div 4 = b"
proof -
  have "b div 16 < 16" using assms by simp
  then have x: "((a mod 4) * 16 + b div 16) mod 16 = b div 16" by simp
  show ?thesis unfolding x by simp
qed

lemma regroup5:
  fixes a :: nat
  shows "a div 4 * 4 + ((a mod 4) * 16) div 16 = a"
  by simp

lemma sextets4:
  assumes "v1 < 64" "v2 < 64" "v3 < 64" "v4 < 64"
  shows "sextets ([b64_char v1, b64_char v2, b64_char v3, b64_char v4] @ cs)
           = [v1, v2, v3, v4] @ sextets cs"
  using assms by (simp add: sextets_b64_char del: sextets.simps)

lemma sextets3:
  assumes "v1 < 64" "v2 < 64" "v3 < 64"
  shows "sextets [b64_char v1, b64_char v2, b64_char v3, CHR ''=''] = [v1, v2, v3]"
  using assms by (simp add: sextets_b64_char del: sextets.simps) simp

lemma sextets2:
  assumes "v1 < 64" "v2 < 64"
  shows "sextets [b64_char v1, b64_char v2, CHR ''='', CHR ''=''] = [v1, v2]"
  using assms by (simp add: sextets_b64_char del: sextets.simps) simp

lemma unb64_b64_groups:
  "list_all (\<lambda>b. b < 256) bs \<Longrightarrow> unb64_groups (sextets (b64_groups bs)) = bs"
proof (induction bs rule: b64_groups.induct)
  case (1 a b c r)
  then have lt: "a < 256" "b < 256" "c < 256" and r: "list_all (\<lambda>b. b < 256) r" by simp_all
  note six = six_bounds [OF lt]
  have "sextets (b64_groups (a # b # c # r))
      = [a div 4, (a mod 4) * 16 + b div 16, (b mod 16) * 4 + c div 64, c mod 64]
        @ sextets (b64_groups r)"
    unfolding b64_groups.simps by (rule sextets4 [OF six(1-4)])
  then have "unb64_groups (sextets (b64_groups (a # b # c # r)))
      = [a div 4 * 4 + ((a mod 4) * 16 + b div 16) div 16,
         (((a mod 4) * 16 + b div 16) mod 16) * 16 + ((b mod 16) * 4 + c div 64) div 4,
         (((b mod 16) * 4 + c div 64) mod 4) * 64 + c mod 64]
        @ unb64_groups (sextets (b64_groups r))"
    by simp
  then show ?case
    unfolding regroup1 [OF lt(2)] regroup2 [OF lt(2,3)] regroup3 [OF lt(3)] "1.IH" [OF r]
    by simp
next
  case (2 a b)
  then have lt: "a < 256" "b < 256" by simp_all
  note six = six_bounds [OF lt lt(2)]
  have "sextets (b64_groups [a, b]) = [a div 4, (a mod 4) * 16 + b div 16, (b mod 16) * 4]"
    unfolding b64_groups.simps by (rule sextets3 [OF six(1,2,6)])
  then have "unb64_groups (sextets (b64_groups [a, b]))
      = [a div 4 * 4 + ((a mod 4) * 16 + b div 16) div 16,
         (((a mod 4) * 16 + b div 16) mod 16) * 16 + ((b mod 16) * 4) div 4]"
    by simp
  then show ?case unfolding regroup1 [OF lt(2)] regroup4 [OF lt(2)] .
next
  case (3 a)
  then have lt: "a < 256" by simp
  note six = six_bounds [OF lt lt lt]
  have "sextets (b64_groups [a]) = [a div 4, (a mod 4) * 16]"
    unfolding b64_groups.simps by (rule sextets2 [OF six(1,5)])
  then have "unb64_groups (sextets (b64_groups [a])) = [a div 4 * 4 + ((a mod 4) * 16) div 16]"
    by simp
  then show ?case unfolding regroup5 .
next
  case 4
  then show ?case by simp
qed

lemma base64_roundtrip: "base64_decode (base64_encode s) = s"
proof -
  have "list_all (\<lambda>b. b < 256) (map of_char s :: nat list)"
    by (induction s) simp_all
  then show ?thesis
    by (simp add: base64_decode_def base64_encode_def unb64_b64_groups)
qed

lemma b64_groups_no_percent:
  "list_all (\<lambda>b. b < 256) bs \<Longrightarrow> CHR ''%'' \<notin> set (b64_groups bs)"
proof (induction bs rule: b64_groups.induct)
  case (1 a b c r)
  then have lt: "a < 256" "b < 256" "c < 256" and r: "list_all (\<lambda>b. b < 256) r" by simp_all
  note six = six_bounds [OF lt]
  show ?case
    using six(1-4) [THEN b64_char_not_percent] "1.IH" [OF r] by auto
next
  case (2 a b)
  then have lt: "a < 256" "b < 256" by simp_all
  note six = six_bounds [OF lt lt(2)]
  show ?case using six(1,2,6) [THEN b64_char_not_percent] by auto
next
  case (3 a)
  then have lt: "a < 256" by simp
  note six = six_bounds [OF lt lt lt]
  show ?case using six(1,5) [THEN b64_char_not_percent] by auto
next
  case 4
  then show ?case by simp
qed

lemma bytes_of_string: "list_all (\<lambda>b. b < 256) (map of_char s :: nat list)"
  by (induction s) simp_all

lemma base64_encode_no_percent: "CHR ''%'' \<notin> set (base64_encode s)"
  by (simp add: base64_encode_def b64_groups_no_percent bytes_of_string)

lemma base64_encode_nonempty: "s \<noteq> [] \<Longrightarrow> base64_encode s \<noteq> []"
  by (cases "map of_char s :: nat list" rule: b64_groups.cases) (auto simp: base64_encode_def)

lemma decodeURIComponent_plain: "CHR ''%'' \<notin> set s \<Longrightarrow> decodeURIComponent s = Some s"
  by (induction s) auto

lemma content_prefix_lower: "toLowerCase ''/content/'' = ''/content/''"
  by code_simp

lemma content_link_resolves:
  assumes "CHR ''/'' \<notin> set (base64_encode h)" "h \<noteq> []"
  shows "resolveContent e (BASE_URL e @ ''/content/'' @ base64_encode h) = Content200 h"
proof -
  have ne: "base64_encode h \<noteq> []" using assms(2) by (rule base64_encode_nonempty)
  then have "last (base64_encode h) \<noteq> CHR ''/''" using assms(1) last_in_set by metis
  then have "match_content_route (''/content/'' @ base64_encode h) = Some (base64_encode h)"
    using ne assms(1) by (simp add: match_content_route_def content_prefix_lower)
  then show ?thesis
    by (simp add: resolveContent_def content_endpoint_def
        decodeURIComponent_plain [OF base64_encode_no_percent] base64_roundtrip)
qed

lemma attempt_link:
  "attempt e weights w = (Returned c, w') \<Longrightarrow>
   url c = BASE_URL e @ ''/content/'' @ base64_encode (html c) \<and> html c \<noteq> []"
  by (auto simp: attempt_def floor_random_def Math_random_def fetch_def Let_def
      split: prod.splits fetch_result.splits body.splits option.splits if_splits)

lemma fetchWithRetry_link:
  "fetchWithRetry e weights retryCount maxRetries w = (Inr c, w') \<Longrightarrow>
   url c = BASE_URL e @ ''/content/'' @ base64_encode (html c) \<and> html c \<noteq> []"
proof (induction e weights retryCount maxRetries w rule: fetchWithRetry.induct)
  case (1 e weights retryCount maxRetries w)
  obtain r w1 where a: "attempt e weights w = (r, w1)" by force
  show ?case
  proof (cases r)
    case (Returned c')
    then show ?thesis
      using "1.prems" a attempt_link [of e weights w c' w1]
      by (subst (asm) fetchWithRetry.simps) simp
  next
    case (NotOk status)
    then show ?thesis
      using "1.prems" a "1.IH"(1,2)
      by (subst (asm) fetchWithRetry.simps) (auto split: if_splits)
  next
    case (Thrown err)
    then show ?thesis
      using "1.prems" a "1.IH"(3)
      by (subst (asm) fetchWithRetry.simps) (auto split: if_splits)
  qed
qed

text \<open>
  Every link the fetch returns leads back to the payload when the Base64 text
  of the payload has no \<open>/\<close>.
\<close>

lemma fetched_link_resolves:
  assumes "fetchArenaContent e weights w = (Inr c, w')"
    and "CHR ''/'' \<notin> set (base64_encode (html c))"
  shows "resolveContent e (url c) = Content200 (html c)"
  using fetchWithRetry_link [of e weights 0 10 w c w'] assms content_link_resolves
  by (simp add: fetchArenaContent_def)

section \<open>Following a content link\<close>

text \<open>
  Claim C7 asks that the link the fetch produces resolves to the fetched
  payload. The code at the payload \<open><p>ok?</p>\<close>: its Base64 text contains
  \<open>/\<close>, so the path of the link has two segments after \<open>/content/\<close>, the route
  \<open>/content/:html\<close> does not match and the answer is 404. A payload whose Base64
  text has no \<open>/\<close>, such as \<open><p>Hello</p>\<close>, resolves to itself.
\<close>

theorem content_link_with_slash_is_not_found:
  "fst (fetchArenaContent remote_one (replicate 9 1) world0) = Inr sample_content
   \<and> html sample_content = ''<p>ok?</p>''
   \<and> url sample_content = ''http://localhost:3000/content/PHA+b2s/PC9wPg==''
   \<and> resolveContent remote_one (url sample_content) = Content404
   \<and> resolveContent remote_one
        (BASE_URL remote_one @ ''/content/'' @ base64_encode ''<p>Hello</p>'')
       = Content200 ''<p>Hello</p>''"
proof (intro conjI)
  show "fst (fetchArenaContent remote_one (replicate 9 1) world0) = Inr sample_content"
    by (simp add: fetch_remote_one)
  show "html sample_content = ''<p>ok?</p>''"
    "url sample_content = ''http://localhost:3000/content/PHA+b2s/PC9wPg==''"
    by (simp_all add: sample_content_def)
  show "resolveContent remote_one (url sample_content) = Content404"
    by code_simp
  show "resolveContent remote_one
        (BASE_URL remote_one @ ''/content/'' @ base64_encode ''<p>Hello</p>'')
       = Content200 ''<p>Hello</p>''"
    by code_simp
qed

end
